theory Spec2Isabelle
  imports Main "HOL-Library.Word"
begin

section \<open>JavaScript strings\<close>

text \<open>
  A JavaScript string is a sequence of UTF-16 code units; \<open>length\<close>, \<open>startsWith\<close>,
  \<open>includes\<close>, \<open>split\<close> and the regular expressions of the crawler (none has the
  \<open>u\<close> flag) all work on code units. The crawler's own literals are ASCII apart from
  the dong sign U+20AB, which is one code unit.
\<close>

type_synonym jstring = "16 word list"

definition ustr :: "string \<Rightarrow> jstring" where
  "ustr s = map (\<lambda>c. of_char c) s"

definition dong :: "16 word" where
  "dong = 0x20AB"

text \<open>\<open>s.startsWith(p)\<close> and \<open>s.includes(p)\<close>.\<close>

definition startsWith :: "jstring \<Rightarrow> jstring \<Rightarrow> bool" where
  "startsWith s p = (take (length p) s = p)"

fun str_includes :: "jstring \<Rightarrow> jstring \<Rightarrow> bool" where
  "str_includes [] p = (p = [])"
| "str_includes (c # cs) p = (startsWith (c # cs) p \<or> str_includes cs p)"

text \<open>
  The characters that \<open>trim()\<close> strips and that \<open>\s\<close> matches: ECMAScript's WhiteSpace
  and LineTerminator code points.
\<close>

definition is_space :: "16 word \<Rightarrow> bool" where
  "is_space c \<longleftrightarrow>
     c = 0x09 \<or> c = 0x0A \<or> c = 0x0B \<or> c = 0x0C \<or> c = 0x0D \<or> c = 0x20 \<or> c = 0xA0 \<or>
     c = 0x1680 \<or> (0x2000 \<le> c \<and> c \<le> 0x200A) \<or> c = 0x2028 \<or> c = 0x2029 \<or>
     c = 0x202F \<or> c = 0x205F \<or> c = 0x3000 \<or> c = 0xFEFF"

definition trim :: "jstring \<Rightarrow> jstring" where
  "trim s = rev (dropWhile is_space (rev (dropWhile is_space s)))"

text \<open>\<open>\d\<close>, and the decimal digits as a predicate on whole strings.\<close>

definition is_digit :: "16 word \<Rightarrow> bool" where
  "is_digit c \<longleftrightarrow> 0x30 \<le> c \<and> c \<le> 0x39"


text \<open>\<open>s.replace(/\n/g, '')\<close>.\<close>

definition remove_newlines :: "jstring \<Rightarrow> jstring" where
  "remove_newlines s = filter (\<lambda>c. c \<noteq> 0x0A) s"

text \<open>\<open>s.replace(/- /g, '')\<close>: every occurrence of hyphen-space, scanning left to right.\<close>

fun remove_dash_space :: "jstring \<Rightarrow> jstring" where
  "remove_dash_space (a # b # cs) =
     (if a = 0x2D \<and> b = 0x20 then remove_dash_space cs else a # remove_dash_space (b # cs))"
| "remove_dash_space cs = cs"

text \<open>\<open>xs.join(sep)\<close> on an array of strings.\<close>

fun join :: "jstring \<Rightarrow> jstring list \<Rightarrow> jstring" where
  "join sep [] = []"
| "join sep [x] = x"
| "join sep (x # y # ys) = x @ sep @ join sep (y # ys)"

section \<open>The parsed page\<close>

text \<open>
  The crawler reads a page only through cheerio queries on the parsed markup. A page is the
  record of what those queries return, selectors being the crawler's own literals:
  \<^item> \<open>first_text sel\<close> is \<open>$(sel).first().text()\<close>, the empty string when nothing matches;
  \<^item> \<open>find_first_text a b\<close> is \<open>$(a).find(b).first().text()\<close>;
  \<^item> \<open>find_texts a b\<close> lists \<open>$(el).text()\<close> for each element of \<open>$(a).find(b)\<close>;
  \<^item> \<open>first_html sel\<close> is \<open>$(sel).first().html()\<close>, \<open>None\<close> for \<open>null\<close>;
  \<^item> \<open>sel_length sel\<close> is \<open>$(sel).length\<close>;
  \<^item> \<open>hrefs sel\<close> lists \<open>$(el).attr('href')\<close> for each element of \<open>$(sel)\<close> in document
    order, \<open>None\<close> for \<open>undefined\<close>.
\<close>

record page =
  first_text :: "string \<Rightarrow> jstring"
  find_first_text :: "string \<Rightarrow> string \<Rightarrow> jstring"
  find_texts :: "string \<Rightarrow> string \<Rightarrow> jstring list"
  first_html :: "string \<Rightarrow> jstring option"
  sel_length :: "string \<Rightarrow> nat"
  hrefs :: "string \<Rightarrow> jstring option list"

section \<open>Title\<close>

text \<open>
  \<open>getTitle\<close>: the loop over the three selectors returns the first trimmed text that is
  truthy and longer than 10 code units, and the empty string after the loop.
\<close>

fun getTitle_loop :: "page \<Rightarrow> string list \<Rightarrow> jstring" where
  "getTitle_loop pg [] = []"
| "getTitle_loop pg (selector # rest) =
     (let title = trim (first_text pg selector)
      in if title \<noteq> [] \<and> length title > 10 then title else getTitle_loop pg rest)"

definition title_selectors :: "string list" where
  "title_selectors = [''.pdp-product-title'', ''h1'', ''.pdp-mod-product-badge-title'']"

definition getTitle :: "page \<Rightarrow> jstring" where
  "getTitle pg = getTitle_loop pg title_selectors"

section \<open>Prices\<close>

text \<open>The character class \<open>[,\s\.]\<close> of both price replacements.\<close>

definition price_sep :: "16 word \<Rightarrow> bool" where
  "price_sep c \<longleftrightarrow> c = 0x2C \<or> is_space c \<or> c = 0x2E"

text \<open>
  \<open>s.replace(/Rp|\<dots>|[,\s\.]/g, '')\<close> with the dong sign as second alternative: scanning
  left to right, the two code units \<open>Rp\<close> are dropped together, else a dong sign or a
  separator is dropped, else the code unit is kept.
\<close>

fun replace_price_rp :: "jstring \<Rightarrow> jstring" where
  "replace_price_rp [] = []"
| "replace_price_rp [a] = (if a = dong \<or> price_sep a then [] else [a])"
| "replace_price_rp (a # b # cs) =
     (if a = 0x52 \<and> b = 0x70 then replace_price_rp cs
      else if a = dong \<or> price_sep a then replace_price_rp (b # cs)
      else a # replace_price_rp (b # cs))"

text \<open>The replacement of the pattern scan, without the \<open>Rp\<close> alternative.\<close>

definition replace_price :: "jstring \<Rightarrow> jstring" where
  "replace_price s = filter (\<lambda>c. \<not> (c = dong \<or> price_sep c)) s"

text \<open>The character class \<open>[\d\.,]\<close>.\<close>

definition price_char :: "16 word \<Rightarrow> bool" where
  "price_char c \<longleftrightarrow> is_digit c \<or> c = 0x2E \<or> c = 0x2C"

text \<open>
  One attempt of the pattern \<open>[\d\.,]+\s*\<close> followed by the dong sign, anchored at the
  start of \<open>s\<close>; it returns the matched text and what follows it. The greedy run of each
  class is the only candidate: a shorter run of \<open>\s*\<close> would need the dong sign where
  a space stands, and a shorter run of \<open>[\d\.,]+\<close> would need a space or the dong sign
  where a digit, dot or comma stands, so backtracking never finds another match.
\<close>

definition match_here :: "jstring \<Rightarrow> (jstring \<times> jstring) option" where
  "match_here s =
     (let ds = takeWhile price_char s;
          r1 = dropWhile price_char s;
          ws = takeWhile is_space r1;
          r2 = dropWhile is_space r1
      in case r2 of
           [] \<Rightarrow> None
         | c # rest \<Rightarrow> if ds \<noteq> [] \<and> c = dong then Some (ds @ ws @ [c], rest) else None)"

text \<open>
  \<open>priceText.match(/\<dots>/g)\<close>: all matches from left to right, each search resuming
  where the previous match ended; a failed attempt moves one code unit on. JavaScript gives
  \<open>null\<close> for no match, which the caller treats like the empty array.
\<close>

function match_all :: "jstring \<Rightarrow> jstring list" where
  "match_all [] = []"
| "match_all (c # cs) =
     (case match_here (c # cs) of
        Some (m, rest) \<Rightarrow> m # match_all rest
      | None \<Rightarrow> match_all cs)"
  by pat_completeness auto
termination
proof (relation "measure length")
  fix c :: "16 word" and cs x2 x y
  assume h: "match_here (c # cs) = Some x2" "(x, y) = x2"
  have a: "length (dropWhile is_space (dropWhile price_char (c # cs))) \<le> length (c # cs)"
    by (meson le_trans length_dropWhile_le)
  from h obtain d where "dropWhile is_space (dropWhile price_char (c # cs)) = d # y"
    by (auto simp: match_here_def Let_def split: list.splits if_splits)
  with a show "(y, c # cs) \<in> measure length" by simp
qed simp_all

record prices =
  regularPrice :: jstring
  salePrice :: jstring

definition getPrices :: "page \<Rightarrow> prices" where
  \<open>getPrices pg =
     (let originBlock = find_first_text pg ''.pdp-product-price'' ''.origin-block span'';
          regular1 = (if originBlock \<noteq> [] then trim (replace_price_rp originBlock) else []);
          salePriceEl = find_first_text pg ''.pdp-product-price'' ''.pdp-price_type_normal'';
          sale1 = (if salePriceEl \<noteq> [] then trim (replace_price_rp salePriceEl) else [])
      in if regular1 = [] \<and> sale1 = [] then
           (let priceText = first_text pg ''[class*="price"]''
            in case match_all priceText of
                 [] \<Rightarrow> \<lparr>regularPrice = regular1, salePrice = sale1\<rparr>
               | m0 # later \<Rightarrow>
                   \<lparr>regularPrice = (case later of [] \<Rightarrow> regular1 | m1 # _ \<Rightarrow> trim (replace_price m1)),
                    salePrice = trim (replace_price m0)\<rparr>)
         else \<lparr>regularPrice = regular1, salePrice = sale1\<rparr>)\<close>

section \<open>JavaScript values\<close>

text \<open>
  \<open>JSON.parse\<close> returns a value of any shape and the crawler reads it untyped, so the
  model keeps JavaScript's values: \<open>undefined\<close> (what reading a missing property gives),
  \<open>null\<close>, booleans, numbers, strings, arrays and objects. A number is represented by the
  text that \<open>String()\<close> gives it, which is \<open>0\<close> for both zeros (JSON has no NaN); an
  object by the list of its own properties, the first binding of a key being the property.
\<close>

datatype jsval =
    JUndefined
  | JNull
  | JBool bool
  | JNum jstring
  | JStr jstring
  | JArr "jsval list"
  | JObj "(jstring \<times> jsval) list"

datatype error =
    TypeError
  | NavigationError
  | TimeoutError
  | CaptchaTimeout
  | EvaluateError
  | ContentError
  | ContentNotFound
  | FsError

text \<open>Sequencing of steps that may throw: the first exception ends the sequence.\<close>

definition and_then :: "error + 'a \<Rightarrow> ('a \<Rightarrow> error + 'b) \<Rightarrow> error + 'b" where
  "and_then r f = (case r of Inl e \<Rightarrow> Inl e | Inr v \<Rightarrow> f v)"

text \<open>The truthiness that \<open>if (v)\<close> and \<open>v || w\<close> test.\<close>

fun truthy :: "jsval \<Rightarrow> bool" where
  "truthy JUndefined = False"
| "truthy JNull = False"
| "truthy (JBool b) = b"
| "truthy (JNum s) = (s \<noteq> ustr ''0'')"
| "truthy (JStr s) = (s \<noteq> [])"
| "truthy (JArr xs) = True"
| "truthy (JObj kvs) = True"

definition js_or :: "jsval \<Rightarrow> jsval \<Rightarrow> jsval" where
  "js_or a b = (if truthy a then a else b)"

text \<open>
  Reading a property \<open>v.k\<close>, for the keys the crawler reads (\<open>name\<close>, \<open>description\<close>,
  \<open>sku\<close>, \<open>image\<close>, \<open>offers\<close>, \<open>availability\<close>, \<open>price\<close>): a TypeError on
  \<open>null\<close> and \<open>undefined\<close>, the own property of an object, and \<open>undefined\<close> in
  every other case, since no prototype defines any of these keys.
\<close>

fun get_prop :: "jsval \<Rightarrow> string \<Rightarrow> error + jsval" where
  "get_prop JUndefined k = Inl TypeError"
| "get_prop JNull k = Inl TypeError"
| "get_prop (JObj kvs) k = Inr (case map_of kvs (ustr k) of None \<Rightarrow> JUndefined | Some v \<Rightarrow> v)"
| "get_prop v k = Inr JUndefined"

text \<open>
  \<open>v.includes(lit)\<close> with a string literal: a substring test on a string, a membership
  test on an array, and a TypeError on anything else, which has no callable \<open>includes\<close>.
\<close>

fun js_includes :: "jsval \<Rightarrow> jstring \<Rightarrow> error + bool" where
  "js_includes (JStr s) lit = Inr (str_includes s lit)"
| "js_includes (JArr xs) lit = Inr (JStr lit \<in> set xs)"
| "js_includes v lit = Inl TypeError"

text \<open>
  \<open>String(v)\<close>. An array joins the texts of its elements with commas, \<open>null\<close> and
  \<open>undefined\<close> elements giving the empty text; an object gives \<open>[object Object]\<close>
  unless an own property hides \<open>toString\<close>, and then the conversion throws.
\<close>

fun to_String :: "jsval \<Rightarrow> error + jstring"
  and join_elems :: "jsval list \<Rightarrow> error + jstring" where
  "to_String JUndefined = Inr (ustr ''undefined'')"
| "to_String JNull = Inr (ustr ''null'')"
| "to_String (JBool b) = Inr (ustr (if b then ''true'' else ''false''))"
| "to_String (JNum s) = Inr s"
| "to_String (JStr s) = Inr s"
| "to_String (JArr xs) = join_elems xs"
| "to_String (JObj kvs) =
     (if map_of kvs (ustr ''toString'') \<noteq> None then Inl TypeError
      else Inr (ustr ''[object Object]''))"
| "join_elems [] = Inr []"
| "join_elems (x # xs) =
     and_then (case x of JUndefined \<Rightarrow> Inr [] | JNull \<Rightarrow> Inr [] | _ \<Rightarrow> to_String x)
       (\<lambda>s. if xs = [] then Inr s
            else and_then (join_elems xs) (\<lambda>t. Inr (s @ ustr '','' @ t)))"

section \<open>Structured data\<close>

record jsonld =
  name :: jsval
  description :: jsval
  productId :: jsval
  imageUrl :: jstring
  stock :: jstring
  priceFromJson :: jstring

definition jsonld_init :: jsonld where
  "jsonld_init =
     \<lparr>name = JStr [], description = JStr [], productId = JStr [], imageUrl = [],
      stock = ustr ''0'', priceFromJson = []\<rparr>"

text \<open>
  The body of \<open>getJsonLdData\<close> after parsing is six statements in one \<open>try\<close> block.
  Each evaluates its condition and right-hand side, which may throw, before it assigns, so
  a statement either throws and leaves \<open>result\<close> as it was or updates one field.
\<close>

definition set_name :: "jsval \<Rightarrow> jsonld \<Rightarrow> error + jsonld" where
  "set_name jsonData r =
     and_then (get_prop jsonData ''name'') (\<lambda>v. Inr (if truthy v then r\<lparr>name := v\<rparr> else r))"

definition set_description :: "jsval \<Rightarrow> jsonld \<Rightarrow> error + jsonld" where
  "set_description jsonData r =
     and_then (get_prop jsonData ''description'')
       (\<lambda>v. Inr (if truthy v then r\<lparr>description := v\<rparr> else r))"

definition set_productId :: "jsval \<Rightarrow> jsonld \<Rightarrow> error + jsonld" where
  "set_productId jsonData r =
     and_then (get_prop jsonData ''sku'') (\<lambda>v. Inr (if truthy v then r\<lparr>productId := v\<rparr> else r))"

text \<open>
  The image: a string is taken as it is, a non-empty array gives its first element, anything
  else leaves the local \<open>imageUrl\<close> empty. A truthy \<open>imageUrl\<close> is then asked
  \<open>startsWith('http')\<close>, which only a string has.
\<close>

definition set_imageUrl :: "jsval \<Rightarrow> jsonld \<Rightarrow> error + jsonld" where
  "set_imageUrl jsonData r =
     and_then (get_prop jsonData ''image'') (\<lambda>image.
       if \<not> truthy image then Inr r
       else
         (let imageUrl = (case image of JStr s \<Rightarrow> JStr s | JArr (x # xs) \<Rightarrow> x | _ \<Rightarrow> JStr [])
          in if \<not> truthy imageUrl then Inr r
             else (case imageUrl of
                     JStr s \<Rightarrow>
                       Inr (r\<lparr>imageUrl := (if startsWith s (ustr ''http'') then s
                                           else ustr ''https:'' @ s)\<rparr>)
                   | _ \<Rightarrow> Inl TypeError)))"

definition set_stock :: "jsval \<Rightarrow> jsonld \<Rightarrow> error + jsonld" where
  "set_stock jsonData r =
     and_then (get_prop jsonData ''offers'') (\<lambda>offers.
       if \<not> truthy offers then Inr r
       else and_then (get_prop offers ''availability'') (\<lambda>availability.
         if \<not> truthy availability then Inr r
         else and_then (js_includes availability (ustr ''InStock'')) (\<lambda>a.
           if a then Inr (r\<lparr>stock := ustr ''1''\<rparr>)
           else and_then (js_includes availability (ustr ''LimitedAvailability'')) (\<lambda>b.
             Inr (r\<lparr>stock := (if b then ustr ''1'' else ustr ''0'')\<rparr>)))))"

definition set_priceFromJson :: "jsval \<Rightarrow> jsonld \<Rightarrow> error + jsonld" where
  "set_priceFromJson jsonData r =
     and_then (get_prop jsonData ''offers'') (\<lambda>offers.
       if \<not> truthy offers then Inr r
       else and_then (get_prop offers ''price'') (\<lambda>price.
         if \<not> truthy price then Inr r
         else and_then (to_String price) (\<lambda>s. Inr (r\<lparr>priceFromJson := s\<rparr>))))"

text \<open>The \<open>try\<close> block: the first statement that throws ends it, and \<open>catch\<close> only logs.\<close>

fun run_statements :: "(jsonld \<Rightarrow> error + jsonld) list \<Rightarrow> jsonld \<Rightarrow> jsonld" where
  "run_statements [] r = r"
| "run_statements (f # fs) r = (case f r of Inl e \<Rightarrow> r | Inr r' \<Rightarrow> run_statements fs r')"

text \<open>
  \<open>getJsonLdData\<close>. \<open>JSON.parse\<close> is the language's own function and a parameter here:
  \<open>parse s\<close> is the parsed value, or \<open>None\<close> where \<open>JSON.parse\<close> throws a SyntaxError.
\<close>

definition getJsonLdData :: "(jstring \<Rightarrow> jsval option) \<Rightarrow> page \<Rightarrow> jsonld" where
  \<open>getJsonLdData parse pg =
     (case first_html pg ''script[type="application/ld+json"]'' of
        None \<Rightarrow> jsonld_init
      | Some jsonLdScript \<Rightarrow>
          if jsonLdScript = [] then jsonld_init
          else (case parse (remove_newlines jsonLdScript) of
                  None \<Rightarrow> jsonld_init
                | Some jsonData \<Rightarrow>
                    run_statements
                      [set_name jsonData, set_description jsonData, set_productId jsonData,
                       set_imageUrl jsonData, set_stock jsonData, set_priceFromJson jsonData]
                      jsonld_init))\<close>

section \<open>Delivery time and description\<close>

definition getDeliveryTime :: "page \<Rightarrow> jstring" where
  "getDeliveryTime pg = trim (first_text pg ''.delivery-option-item__time'')"

definition getDescription :: "page \<Rightarrow> jstring" where
  "getDescription pg =
     join (ustr '', '')
       (filter (\<lambda>t. t \<noteq> [])
          (map (\<lambda>t. trim (remove_dash_space (remove_newlines t)))
             (find_texts pg ''.pdp-product-detail article.lzd-article'' ''p'')))"

section \<open>Visiting a page\<close>

text \<open>
  What the browser does during one visit, as far as the crawler observes it:
  \<^item> \<open>goto_ok\<close>: \<open>page.goto\<close> resolves (it rejects on a timeout or a network error);
  \<^item> \<open>ready_ok\<close>: the first \<open>waitForFunction\<close> resolves within its 20 seconds;
  \<^item> \<open>captcha k\<close>: what the \<open>k\<close>-th call of \<open>detectCaptcha\<close> of this visit returns, call 0
    being the check before the page is processed (\<open>detectCaptcha\<close> catches its own errors);
  \<^item> \<open>lag k\<close>: the milliseconds by which the round of the waiting loop that ends with call
    \<open>k\<close> exceeds 2000, the least delay of \<open>delay(2, 3)\<close>;
  \<^item> \<open>reready_ok\<close>: the \<open>waitForFunction\<close> after the CAPTCHA resolves;
  \<^item> \<open>scroll_ok\<close>: the scrolling \<open>page.evaluate\<close> calls resolve;
  \<^item> \<open>content\<close>: the parsed \<open>page.content()\<close>, \<open>None\<close> when it rejects;
  \<^item> \<open>finished_at\<close>, \<open>elapsed_ms\<close>: the clock readings that go into the record.
\<close>

record visit =
  goto_ok :: bool
  ready_ok :: bool
  captcha :: "nat \<Rightarrow> bool"
  lag :: "nat \<Rightarrow> nat"
  reready_ok :: bool
  scroll_ok :: bool
  content :: "page option"
  finished_at :: jstring
  elapsed_ms :: nat

text \<open>
  The loop of \<open>handleCaptcha\<close>. \<open>waited\<close> is \<open>Date.now() - startTime\<close> at the loop test and
  \<open>k\<close> the number of \<open>detectCaptcha\<close> calls made so far; the result is that number at the
  return, or the timeout thrown after the loop.
\<close>

function captcha_loop :: "visit \<Rightarrow> nat \<Rightarrow> nat \<Rightarrow> error + nat" where
  "captcha_loop v k waited =
     (if waited < 60000 then
        (if \<not> captcha v k then Inr (Suc k)
         else captcha_loop v (Suc k) (waited + 2000 + lag v k))
      else Inl CaptchaTimeout)"
  by pat_completeness auto
termination
  by (relation "measure (\<lambda>(v, k, waited). 60000 - waited)") auto

text \<open>
  The value of \<open>waited\<close> at the loop test that follows the \<open>k\<close>-th poll: the rounds of
  the polls 1 to \<open>k\<close> added up. Poll \<open>k\<close> is made when the test before it, at
  \<open>poll_time v (k - 1)\<close>, is still under 60000.
\<close>

fun poll_time :: "visit \<Rightarrow> nat \<Rightarrow> nat" where
  "poll_time v 0 = 0"
| "poll_time v (Suc k) = poll_time v k + 2000 + lag v (Suc k)"

definition handleCaptcha :: "visit \<Rightarrow> error + nat" where
  "handleCaptcha v = captcha_loop v 1 0"

text \<open>
  The check that precedes processing in \<open>crawlProduct\<close> and \<open>getProductLinks\<close>:
  \<open>const hasCaptcha = await this.detectCaptcha(page); if (hasCaptcha) await
  this.handleCaptcha(page)\<close>. The result counts the \<open>detectCaptcha\<close> calls made.
\<close>

definition checkCaptcha :: "visit \<Rightarrow> error + nat" where
  "checkCaptcha v = (if captcha v 0 then handleCaptcha v else Inr 1)"

section \<open>Crawling one product\<close>

text \<open>
  The fields \<open>pdp_title_value\<close>, \<open>pdp_desc_value\<close> and \<open>web_pid\<close> receive values that
  may come from the structured data unchanged, so they are JavaScript values.
  \<open>execution_time\<close> is kept in milliseconds.
\<close>

record product =
  pdp_url :: jstring
  pdp_title_value :: jsval
  price_rp :: jstring
  price_sp :: jstring
  delivery_time :: jstring
  pdp_desc_value :: jsval
  web_pid :: jsval
  vosa :: jstring
  pdp_image_url :: jstring
  pdp_image_count :: jstring
  crawledAt :: jstring
  execution_time :: nat
  category :: "jstring option"

definition finalTitle :: "(jstring \<Rightarrow> jsval option) \<Rightarrow> page \<Rightarrow> jsval" where
  "finalTitle parse pg = js_or (JStr (getTitle pg)) (name (getJsonLdData parse pg))"

definition finalDescription :: "(jstring \<Rightarrow> jsval option) \<Rightarrow> page \<Rightarrow> jsval" where
  "finalDescription parse pg =
     js_or (JStr (getDescription pg)) (description (getJsonLdData parse pg))"

definition finalRegularPrice :: "(jstring \<Rightarrow> jsval option) \<Rightarrow> page \<Rightarrow> jstring" where
  "finalRegularPrice parse pg =
     (if regularPrice (getPrices pg) \<noteq> [] then regularPrice (getPrices pg)
      else priceFromJson (getJsonLdData parse pg))"

text \<open>The object literal of \<open>crawlProduct\<close>.\<close>

definition build_product :: "(jstring \<Rightarrow> jsval option) \<Rightarrow> visit \<Rightarrow> page \<Rightarrow> jstring \<Rightarrow> product" where
  "build_product parse v pg url =
     (let jsonLdData = getJsonLdData parse pg
      in \<lparr>pdp_url = url,
          pdp_title_value = finalTitle parse pg,
          price_rp = finalRegularPrice parse pg,
          price_sp = salePrice (getPrices pg),
          delivery_time = getDeliveryTime pg,
          pdp_desc_value = finalDescription parse pg,
          web_pid = productId jsonLdData,
          vosa = stock jsonLdData,
          pdp_image_url = imageUrl jsonLdData,
          pdp_image_count = (if imageUrl jsonLdData \<noteq> [] then ustr ''1'' else ustr ''0''),
          crawledAt = finished_at v,
          execution_time = elapsed_ms v,
          category = None\<rparr>)"

text \<open>
  The \<open>try\<close> block of \<open>crawlProduct\<close>. After the record is built, the success line calls
  \<open>finalTitle.substring\<close>, which throws a TypeError when the title is not a string.
\<close>

definition crawlProduct_try :: "(jstring \<Rightarrow> jsval option) \<Rightarrow> visit \<Rightarrow> jstring \<Rightarrow> error + product" where
  "crawlProduct_try parse v url =
     (if \<not> goto_ok v then Inl NavigationError
      else if \<not> ready_ok v then Inl TimeoutError
      else and_then (checkCaptcha v) (\<lambda>calls.
        if captcha v 0 \<and> \<not> reready_ok v then Inl TimeoutError
        else if \<not> scroll_ok v then Inl EvaluateError
        else (case content v of
                None \<Rightarrow> Inl ContentError
              | Some pg \<Rightarrow>
                  if sel_length pg ''#root'' = 0 then Inl ContentNotFound
                  else (case finalTitle parse pg of
                          JStr t \<Rightarrow> Inr (build_product parse v pg url)
                        | _ \<Rightarrow> Inl TypeError))))"

text \<open>\<open>crawlProduct\<close>: the \<open>catch\<close> logs the error and returns \<open>null\<close>.\<close>

definition crawlProduct :: "(jstring \<Rightarrow> jsval option) \<Rightarrow> visit \<Rightarrow> jstring \<Rightarrow> product option" where
  "crawlProduct parse v url =
     (case crawlProduct_try parse v url of Inl e \<Rightarrow> None | Inr p \<Rightarrow> Some p)"

section \<open>Link discovery\<close>

text \<open>The three rewriting cases of the callback, and \<open>fullUrl.split('?')[0]\<close>.\<close>

definition fullUrl_of :: "jstring \<Rightarrow> jstring" where
  "fullUrl_of href =
     (if startsWith href (ustr ''//'') then ustr ''https:'' @ href
      else if startsWith href (ustr ''/'') then ustr ''https://www.lazada.vn'' @ href
      else if \<not> startsWith href (ustr ''http'') then ustr ''https://www.lazada.vn/'' @ href
      else href)"

definition cleanUrl_of :: "jstring \<Rightarrow> jstring" where
  "cleanUrl_of fullUrl = takeWhile (\<lambda>c. c \<noteq> 0x3F) fullUrl"

text \<open>
  The \<open>each\<close> callback over the elements of one selector, on the pair of \<open>links\<close> and
  \<open>seen\<close>.
\<close>

fun collect :: "jstring option list \<Rightarrow> jstring list \<times> jstring set \<Rightarrow> jstring list \<times> jstring set" where
  "collect [] st = st"
| "collect (h # hs) (links, seen) =
     (case h of
        None \<Rightarrow> collect hs (links, seen)
      | Some href \<Rightarrow>
          if href \<noteq> [] \<and> str_includes href (ustr ''/products/'') \<and> href \<notin> seen then
            (let cleanUrl = cleanUrl_of (fullUrl_of href)
             in if cleanUrl \<notin> seen \<and> str_includes cleanUrl (ustr ''/products/'')
                then collect hs (links @ [cleanUrl], insert cleanUrl seen)
                else collect hs (links, seen))
          else collect hs (links, seen))"

definition link_selectors :: "string list" where
  \<open>link_selectors =
     [''a[href*="/products/"]'', ''.Bm3ON'', ''[data-tracking="product-card"]'', ''.qmXQo'']\<close>

text \<open>
  The loop over the selectors, left by \<open>break\<close> once \<open>links.length >= maxProducts\<close>.
  \<open>maxProducts\<close> is a JavaScript number; the model takes the integers.
\<close>

fun links_loop :: "page \<Rightarrow> int \<Rightarrow> string list \<Rightarrow> jstring list \<times> jstring set \<Rightarrow> jstring list" where
  "links_loop pg maxProducts [] st = fst st"
| "links_loop pg maxProducts (selector # rest) st =
     (let st' = collect (hrefs pg selector) st
      in if int (length (fst st')) \<ge> maxProducts then fst st'
         else links_loop pg maxProducts rest st')"

text \<open>\<open>xs.slice(0, n)\<close>: a negative \<open>n\<close> counts from the end.\<close>

definition slice0 :: "'a list \<Rightarrow> int \<Rightarrow> 'a list" where
  "slice0 xs n = (if n \<ge> 0 then take (nat n) xs else take (length xs - nat (- n)) xs)"

definition discover :: "page \<Rightarrow> int \<Rightarrow> jstring list" where
  "discover pg maxProducts = slice0 (links_loop pg maxProducts link_selectors ([], {})) maxProducts"

text \<open>
  \<open>getProductLinks\<close>: navigation, the CAPTCHA check, five scrolls, then the part above on
  the parsed content; any exception gives the empty array.
\<close>

definition getProductLinks_try :: "visit \<Rightarrow> jstring \<Rightarrow> int \<Rightarrow> error + jstring list" where
  "getProductLinks_try v categoryUrl maxProducts =
     (if \<not> goto_ok v then Inl NavigationError
      else and_then (checkCaptcha v) (\<lambda>calls.
        if \<not> scroll_ok v then Inl EvaluateError
        else (case content v of
                None \<Rightarrow> Inl ContentError
              | Some pg \<Rightarrow> Inr (discover pg maxProducts))))"

definition getProductLinks :: "visit \<Rightarrow> jstring \<Rightarrow> int \<Rightarrow> jstring list" where
  "getProductLinks v categoryUrl maxProducts =
     (case getProductLinks_try v categoryUrl maxProducts of Inl e \<Rightarrow> [] | Inr links \<Rightarrow> links)"

section \<open>The batch and the two crawl loops\<close>

record crawler =
  results :: "product list"
  failedUrls :: "jstring list"

definition new_crawler :: crawler where
  "new_crawler = \<lparr>results = [], failedUrls = []\<rparr>"

text \<open>
  The loop of \<open>crawlByUrls\<close> from index \<open>i\<close> on, over the URLs that remain;
  \<open>browser i\<close> is what the browser does on the visit of iteration \<open>i\<close>. The delays between
  iterations only pass time.
\<close>

fun crawl_urls_loop ::
  "(jstring \<Rightarrow> jsval option) \<Rightarrow> (nat \<Rightarrow> visit) \<Rightarrow> nat \<Rightarrow> jstring list \<Rightarrow> crawler \<Rightarrow> crawler" where
  "crawl_urls_loop parse browser i [] c = c"
| "crawl_urls_loop parse browser i (url # rest) c =
     crawl_urls_loop parse browser (Suc i) rest
       (case crawlProduct parse (browser i) url of
          Some p \<Rightarrow> c\<lparr>results := results c @ [p]\<rparr>
        | None \<Rightarrow> c\<lparr>failedUrls := failedUrls c @ [url]\<rparr>)"

text \<open>
  The loop of \<open>crawlCategory\<close> over the discovered links, on the pair of
  \<open>categoryProducts\<close> and the crawler.
\<close>

fun crawl_links_loop ::
  "(jstring \<Rightarrow> jsval option) \<Rightarrow> (nat \<Rightarrow> visit) \<Rightarrow> jstring \<Rightarrow> nat \<Rightarrow> jstring list \<Rightarrow>
     product list \<times> crawler \<Rightarrow> product list \<times> crawler" where
  "crawl_links_loop parse browser label i [] st = st"
| "crawl_links_loop parse browser label i (link # rest) (categoryProducts, c) =
     crawl_links_loop parse browser label (Suc i) rest
       (case crawlProduct parse (browser i) link of
          Some p \<Rightarrow>
            (categoryProducts @ [p\<lparr>category := Some label\<rparr>],
             c\<lparr>results := results c @ [p\<lparr>category := Some label\<rparr>]\<rparr>)
        | None \<Rightarrow> (categoryProducts, c\<lparr>failedUrls := failedUrls c @ [link]\<rparr>))"

text \<open>
  The interface \<open>Category\<close>; its fields \<open>name\<close> and \<open>url\<close> carry the prefix
  \<open>category_\<close> here. A missing \<open>maxProducts\<close> is \<open>None\<close>.
\<close>

record category_cfg =
  category_name :: jstring
  category_url :: jstring
  maxProducts :: "int option"

text \<open>The visits of one category: the listing page, then the product of each link.\<close>

record category_visits =
  listing :: visit
  items :: "nat \<Rightarrow> visit"

text \<open>\<open>category.maxProducts || 50\<close>: a missing or zero value gives 50.\<close>

definition cap_of :: "category_cfg \<Rightarrow> int" where
  "cap_of cat = (case maxProducts cat of None \<Rightarrow> 50 | Some n \<Rightarrow> if n = 0 then 50 else n)"

definition crawlCategory ::
  "(jstring \<Rightarrow> jsval option) \<Rightarrow> category_visits \<Rightarrow> category_cfg \<Rightarrow> crawler \<Rightarrow> product list \<times> crawler" where
  "crawlCategory parse w cat c =
     (let productLinks = getProductLinks (listing w) (category_url cat) (cap_of cat)
      in if productLinks = [] then ([], c)
         else crawl_links_loop parse (items w) (category_name cat) 0 productLinks ([], c))"

fun categories_loop ::
  "(jstring \<Rightarrow> jsval option) \<Rightarrow> (nat \<Rightarrow> category_visits) \<Rightarrow> nat \<Rightarrow> category_cfg list \<Rightarrow> crawler \<Rightarrow> crawler" where
  "categories_loop parse world i [] c = c"
| "categories_loop parse world i (cat # rest) c =
     categories_loop parse world (Suc i) rest (snd (crawlCategory parse (world i) cat c))"

section \<open>The session\<close>

text \<open>
  What the session's own calls do: launching the browser, opening and preparing the tab,
  closing the tab, writing the file, closing the browser.
\<close>

record session =
  launch_ok :: bool
  newPage_ok :: bool
  setViewport_ok :: bool
  setHeaders_ok :: bool
  page_close_ok :: bool
  write_ok :: bool
  browser_close_ok :: bool
  saved_at :: jstring

text \<open>
  The document that \<open>saveResults\<close> writes. Its fields \<open>crawledAt\<close> and \<open>failedUrls\<close>
  are \<open>out_crawledAt\<close> and \<open>failedCount\<close> here, the source's names being those of a
  field of the product and of the crawler.
\<close>

record output_doc =
  out_crawledAt :: jstring
  totalProducts :: nat
  successfulUrls :: nat
  failedCount :: nat
  products :: "product list"
  failed :: "jstring list"

definition saveResults :: "session \<Rightarrow> crawler \<Rightarrow> error + output_doc" where
  "saveResults s c =
     (if write_ok s then
        Inr \<lparr>out_crawledAt = saved_at s,
             totalProducts = length (results c),
             successfulUrls = length (results c),
             failedCount = length (failedUrls c),
             products = results c,
             failed = failedUrls c\<rparr>
      else Inl FsError)"

text \<open>
  The end of a run: the crawler's lists, whether \<open>saveResults\<close> was called and the
  document it wrote, whether the \<open>catch\<close> of the session ran (the fatal-error line), and
  whether the promise of the run rejects.
\<close>

record run =
  batch :: crawler
  save_called :: bool
  written :: "output_doc option"
  fatal :: bool
  rejected :: bool

text \<open>
  The common frame of \<open>crawlByUrls\<close> and \<open>crawlByCategories\<close>: the launch outside the
  \<open>try\<close>, the tab set up, the loop, \<open>page.close()\<close>, \<open>saveResults\<close>, and the
  \<open>finally\<close> that closes the browser.
\<close>

definition run_session :: "session \<Rightarrow> (crawler \<Rightarrow> crawler) \<Rightarrow> crawler \<Rightarrow> run" where
  "run_session s loop c =
     (if \<not> launch_ok s then
        \<lparr>batch = c, save_called = False, written = None, fatal = False, rejected = True\<rparr>
      else if \<not> (newPage_ok s \<and> setViewport_ok s \<and> setHeaders_ok s) then
        \<lparr>batch = c, save_called = False, written = None, fatal = True,
         rejected = (\<not> browser_close_ok s)\<rparr>
      else if \<not> page_close_ok s then
        \<lparr>batch = loop c, save_called = False, written = None, fatal = True,
         rejected = (\<not> browser_close_ok s)\<rparr>
      else (case saveResults s (loop c) of
              Inl e \<Rightarrow>
                \<lparr>batch = loop c, save_called = True, written = None, fatal = True,
                 rejected = (\<not> browser_close_ok s)\<rparr>
            | Inr doc \<Rightarrow>
                \<lparr>batch = loop c, save_called = True, written = Some doc, fatal = False,
                 rejected = (\<not> browser_close_ok s)\<rparr>))"

definition crawlByUrls ::
  "(jstring \<Rightarrow> jsval option) \<Rightarrow> session \<Rightarrow> (nat \<Rightarrow> visit) \<Rightarrow> jstring list \<Rightarrow> crawler \<Rightarrow> run" where
  "crawlByUrls parse s browser urls c = run_session s (crawl_urls_loop parse browser 0 urls) c"

definition crawlByCategories ::
  "(jstring \<Rightarrow> jsval option) \<Rightarrow> session \<Rightarrow> (nat \<Rightarrow> category_visits) \<Rightarrow> category_cfg list \<Rightarrow>
     crawler \<Rightarrow> run" where
  "crawlByCategories parse s world categories c =
     run_session s (categories_loop parse world 0 categories) c"


section \<open>The structured-data block of a page\<close>

text \<open>
  The value that \<open>getJsonLdData\<close> works on, when the first script of the structured-data
  type exists, is not empty and parses.
\<close>

definition parsed_block :: "(jstring \<Rightarrow> jsval option) \<Rightarrow> page \<Rightarrow> jsval option" where
  \<open>parsed_block parse pg =
     (case first_html pg ''script[type="application/ld+json"]'' of
        None \<Rightarrow> None
      | Some jsonLdScript \<Rightarrow>
          if jsonLdScript = [] then None else parse (remove_newlines jsonLdScript))\<close>

section \<open>Sample inputs\<close>

text \<open>
  A page with a heading, one element whose class hints at a price, a root element and
  possibly a structured-data script; a visit that meets no obstacle; and two
  structured-data texts with the values that \<open>JSON.parse\<close> gives them.
\<close>

definition sample_page :: "jstring \<Rightarrow> jstring \<Rightarrow> jstring option \<Rightarrow> page" where
  \<open>sample_page heading priceText script =
     \<lparr>first_text = (\<lambda>sel. if sel = ''h1'' then heading
                          else if sel = ''[class*="price"]'' then priceText else []),
      find_first_text = (\<lambda>a b. []),
      find_texts = (\<lambda>a b. []),
      first_html = (\<lambda>sel. if sel = ''script[type="application/ld+json"]'' then script else None),
      sel_length = (\<lambda>sel. if sel = ''#root'' then 1 else 0),
      hrefs = (\<lambda>sel. [])\<rparr>\<close>

definition sample_visit :: "page \<Rightarrow> visit" where
  "sample_visit pg =
     \<lparr>goto_ok = True, ready_ok = True, captcha = (\<lambda>k. False), lag = (\<lambda>k. 0),
      reready_ok = True, scroll_ok = True, content = Some pg,
      finished_at = ustr ''2024-01-15T10:30:45.000Z'', elapsed_ms = 5230\<rparr>"

definition sample_url :: jstring where
  "sample_url = ustr ''https://www.lazada.vn/products/foo-i1.html''"

definition price_text :: jstring where
  "price_text = ustr ''271.043'' @ [dong] @ ustr ''548.772 '' @ [dong] @ ustr ''-51%''"

definition script_a :: jstring where
  \<open>script_a = ustr ''{"name":"Foo Product","image":"//i.co/p.jpg","offers":{"availability":"https://schema.org/InStock","price":271043}}''\<close>

definition json_a :: jsval where
  "json_a =
     JObj [(ustr ''name'', JStr (ustr ''Foo Product'')),
           (ustr ''image'', JStr (ustr ''//i.co/p.jpg'')),
           (ustr ''offers'',
            JObj [(ustr ''availability'', JStr (ustr ''https://schema.org/InStock'')),
                  (ustr ''price'', JNum (ustr ''271043''))])]"

definition script_b :: jstring where
  \<open>script_b = ustr ''{"image":[{"url":"https://i.co/p.jpg"}],"offers":{"availability":"https://schema.org/InStock"}}''\<close>

definition json_b :: jsval where
  "json_b =
     JObj [(ustr ''image'', JArr [JObj [(ustr ''url'', JStr (ustr ''https://i.co/p.jpg''))]]),
           (ustr ''offers'',
            JObj [(ustr ''availability'', JStr (ustr ''https://schema.org/InStock''))])]"

definition sample_parse :: "jstring \<Rightarrow> jsval option" where
  "sample_parse s =
     (if s = script_a then Some json_a else if s = script_b then Some json_b else None)"

text \<open>
  A listing page with six anchors under the first link selector: two that differ in the
  query only, one without \<open>href\<close>, and a protocol-relative, an absolute and a
  bare-relative one.
\<close>

definition listing_page :: page where
  \<open>listing_page =
     \<lparr>first_text = (\<lambda>sel. []),
      find_first_text = (\<lambda>a b. []),
      find_texts = (\<lambda>a b. []),
      first_html = (\<lambda>sel. None),
      sel_length = (\<lambda>sel. 0),
      hrefs = (\<lambda>sel. if sel = ''a[href*="/products/"]'' then
                 [Some (ustr ''/products/a-i1.html?t=1''),
                  Some (ustr ''/products/a-i1.html?t=2''),
                  None,
                  Some (ustr ''//www.lazada.vn/products/b-i2.html''),
                  Some (ustr ''https://www.lazada.vn/products/c-i3.html''),
                  Some (ustr ''shop/products/d-i4.html'')]
               else [])\<rparr>\<close>

definition link_a :: jstring where
  "link_a = ustr ''https://www.lazada.vn/products/a-i1.html''"

definition link_b :: jstring where
  "link_b = ustr ''https://www.lazada.vn/products/b-i2.html''"

definition link_c :: jstring where
  "link_c = ustr ''https://www.lazada.vn/products/c-i3.html''"

definition link_d :: jstring where
  "link_d = ustr ''https://www.lazada.vn/shop/products/d-i4.html''"

text \<open>
  Visits that go wrong: a CAPTCHA that never clears, and a navigation that fails. A product
  page with a heading long enough to be its title. A browser whose second visit fails to
  navigate, a session whose own calls all succeed, and one category.
\<close>

definition stuck_visit :: "page \<Rightarrow> visit" where
  "stuck_visit pg = (sample_visit pg)\<lparr>captcha := (\<lambda>k. True)\<rparr>"

definition offline_visit :: "page \<Rightarrow> visit" where
  "offline_visit pg = (sample_visit pg)\<lparr>goto_ok := False\<rparr>"

definition title_page :: page where
  "title_page = sample_page (ustr ''Foo Product Title'') price_text None"

definition sample_browser :: "nat \<Rightarrow> visit" where
  "sample_browser i = (if i = 1 then offline_visit title_page else sample_visit title_page)"

definition sample_session :: session where
  "sample_session =
     \<lparr>launch_ok = True, newPage_ok = True, setViewport_ok = True, setHeaders_ok = True,
      page_close_ok = True, write_ok = True, browser_close_ok = True,
      saved_at = ustr ''2024-01-15T10:31:00.000Z''\<rparr>"

definition sample_category :: category_cfg where
  "sample_category =
     \<lparr>category_name = ustr ''Shoes'',
      category_url = ustr ''https://www.lazada.vn/catalog/?q=shoes'',
      maxProducts = Some 2\<rparr>"

definition sample_world :: "nat \<Rightarrow> category_visits" where
  "sample_world i = \<lparr>listing = sample_visit listing_page, items = sample_browser\<rparr>"


definition slow_visit :: "page \<Rightarrow> visit" where
  "slow_visit pg = (sample_visit pg)\<lparr>captcha := (\<lambda>k. 2999 * k < 62900), lag := (\<lambda>k. 999)\<rparr>"

section \<open>Facts about strings and prices\<close>

lemma startsWith_iff: "startsWith s p \<longleftrightarrow> (\<exists>r. s = p @ r)"
  unfolding startsWith_def by (metis append_eq_conv_conj)














lemma getPrices_scan:
  assumes "find_first_text pg ''.pdp-product-price'' ''.origin-block span'' = []"
      and "find_first_text pg ''.pdp-product-price'' ''.pdp-price_type_normal'' = []"
  shows \<open>salePrice (getPrices pg) =
           (case match_all (first_text pg ''[class*="price"]'') of
              [] \<Rightarrow> [] | m0 # ms \<Rightarrow> trim (replace_price m0))\<close>
    and \<open>regularPrice (getPrices pg) =
           (case match_all (first_text pg ''[class*="price"]'') of
              [] \<Rightarrow> [] | [m0] \<Rightarrow> [] | m0 # m1 # ms \<Rightarrow> trim (replace_price m1))\<close>
  unfolding getPrices_def Let_def assms
  by (simp_all split: list.split)






lemma replace_price_rp_step:
  "replace_price_rp (a # b # cs) =
     (if a = 0x52 \<and> b = 0x70 then replace_price_rp cs
      else if a = dong \<or> price_sep a then replace_price_rp (b # cs)
      else a # replace_price_rp (b # cs))"
  by simp






lemma normalize_empty: "trim (replace_price_rp []) = []"
  by (simp add: trim_def)



section \<open>Facts about extraction\<close>

lemma run_statements_preserves:
  assumes "\<And>f r r'. f \<in> set fs \<Longrightarrow> f r = Inr r' \<Longrightarrow> g r' = g r"
  shows "g (run_statements fs r) = g r"
  using assms
proof (induction fs arbitrary: r)
  case Nil
  then show ?case by simp
next
  case (Cons f fs)
  show ?case
  proof (cases "f r")
    case (Inl e)
    then show ?thesis by simp
  next
    case (Inr r')
    have "g (run_statements fs r') = g r'"
    proof (rule Cons.IH)
      fix f' a b
      assume "f' \<in> set fs" "f' a = Inr b"
      then show "g b = g a" using Cons.prems[of f' a b] by simp
    qed
    moreover have "g r' = g r"
      using Cons.prems[of f r r'] Inr by simp
    ultimately show ?thesis using Inr by simp
  qed
qed

lemma and_then_Inr: "and_then r f = Inr y \<longleftrightarrow> (\<exists>x. r = Inr x \<and> f x = Inr y)"
  by (cases r) (simp_all add: and_then_def)

lemma later_keep_name:
  "set_description j r = Inr r' \<Longrightarrow> name r' = name r"
  "set_productId j r = Inr r' \<Longrightarrow> name r' = name r"
  "set_imageUrl j r = Inr r' \<Longrightarrow> name r' = name r"
  "set_stock j r = Inr r' \<Longrightarrow> name r' = name r"
  "set_priceFromJson j r = Inr r' \<Longrightarrow> name r' = name r"
  by (auto simp: set_description_def set_productId_def set_imageUrl_def set_stock_def
      set_priceFromJson_def and_then_Inr Let_def split: if_splits jsval.splits list.splits)

lemma getJsonLdData_block:
  "getJsonLdData parse pg =
     (case parsed_block parse pg of
        None \<Rightarrow> jsonld_init
      | Some jsonData \<Rightarrow>
          run_statements
            [set_name jsonData, set_description jsonData, set_productId jsonData,
             set_imageUrl jsonData, set_stock jsonData, set_priceFromJson jsonData]
            jsonld_init)"
  by (simp add: getJsonLdData_def parsed_block_def split: option.splits)

lemma name_of_statements:
  "name (run_statements
            [set_name j, set_description j, set_productId j,
             set_imageUrl j, set_stock j, set_priceFromJson j] jsonld_init) =
     (case get_prop j ''name'' of
        Inl e \<Rightarrow> JStr []
      | Inr v \<Rightarrow> if truthy v then v else JStr [])"
proof -
  let ?rest = "[set_description j, set_productId j, set_imageUrl j, set_stock j, set_priceFromJson j]"
  have keep: "name (run_statements ?rest r) = name r" for r
    by (rule run_statements_preserves) (auto dest: later_keep_name)
  show ?thesis
  proof (cases "get_prop j ''name''")
    case (Inl e)
    then show ?thesis by (simp add: set_name_def and_then_def jsonld_init_def)
  next
    case (Inr v)
    then have "set_name j jsonld_init = Inr (if truthy v then jsonld_init\<lparr>name := v\<rparr> else jsonld_init)"
      by (simp add: set_name_def and_then_def)
    then show ?thesis using Inr keep by (simp add: jsonld_init_def)
  qed
qed

lemma getTitle_loop_find:
  "getTitle_loop pg sels =
     (case find (\<lambda>t. t \<noteq> [] \<and> 10 < length t) (map (\<lambda>sel. trim (first_text pg sel)) sels) of
        Some t \<Rightarrow> t | None \<Rightarrow> [])"
  by (induction sels) (auto simp: Let_def)

lemma crawlProduct_Some:
  assumes "crawlProduct parse v url = Some p"
  shows "\<exists>pg t. content v = Some pg \<and> p = build_product parse v pg url
           \<and> finalTitle parse pg = JStr t \<and> sel_length pg ''#root'' \<noteq> 0 \<and> goto_ok v \<and> ready_ok v"
  using assms
  by (auto simp: crawlProduct_def crawlProduct_try_def and_then_def
      split: sum.splits if_splits option.splits jsval.splits)

lemma build_product_fields:
  "pdp_url (build_product parse v pg url) = url"
  "pdp_title_value (build_product parse v pg url) = finalTitle parse pg"
  "price_sp (build_product parse v pg url) = salePrice (getPrices pg)"
  "price_rp (build_product parse v pg url) = finalRegularPrice parse pg"
  "vosa (build_product parse v pg url) = stock (getJsonLdData parse pg)"
  "pdp_image_url (build_product parse v pg url) = imageUrl (getJsonLdData parse pg)"
  "pdp_image_count (build_product parse v pg url) =
     (if imageUrl (getJsonLdData parse pg) \<noteq> [] then ustr ''1'' else ustr ''0'')"
  by (simp_all add: build_product_def Let_def)

lemma find_SomeD: "find P xs = Some x \<Longrightarrow> P x"
  by (induction xs) (auto split: if_splits)

lemma script_a_block:
  "parsed_block sample_parse (sample_page h t (Some script_a)) = Some json_a"
  by (simp add: parsed_block_def sample_page_def sample_parse_def remove_newlines_def
      script_a_def ustr_def)

lemma script_b_block:
  "parsed_block sample_parse (sample_page h t (Some script_b)) = Some json_b"
  by (simp add: parsed_block_def sample_page_def sample_parse_def remove_newlines_def
      script_a_def script_b_def ustr_def)

lemma jsonld_a:
  "getJsonLdData sample_parse (sample_page h t (Some script_a)) =
     \<lparr>name = JStr (ustr ''Foo Product''), description = JStr [], productId = JStr [],
      imageUrl = ustr ''https://i.co/p.jpg'', stock = ustr ''1'',
      priceFromJson = ustr ''271043''\<rparr>"
  by (simp add: getJsonLdData_block script_a_block json_a_def jsonld_init_def set_name_def
      set_description_def set_productId_def set_imageUrl_def set_stock_def
      set_priceFromJson_def and_then_def startsWith_def ustr_def)

lemma jsonld_b:
  "getJsonLdData sample_parse (sample_page h t (Some script_b)) = jsonld_init"
  by (simp add: getJsonLdData_block script_b_block json_b_def jsonld_init_def set_name_def
      set_description_def set_productId_def set_imageUrl_def set_stock_def
      set_priceFromJson_def and_then_def startsWith_def ustr_def)

lemma crawl_sample_visit:
  assumes "finalTitle parse pg = JStr t" and "sel_length pg ''#root'' \<noteq> 0"
  shows "crawlProduct parse (sample_visit pg) url = Some (build_product parse (sample_visit pg) pg url)"
  using assms
  by (simp add: crawlProduct_def crawlProduct_try_def checkCaptcha_def and_then_def sample_visit_def)

text \<open>
  The stock field follows the availability when the image statement before it does not
  throw, and keeps its default when the block or the availability is missing.
\<close>

lemma others_keep_stock:
  "set_name j r = Inr r' \<Longrightarrow> stock r' = stock r"
  "set_description j r = Inr r' \<Longrightarrow> stock r' = stock r"
  "set_productId j r = Inr r' \<Longrightarrow> stock r' = stock r"
  "set_imageUrl j r = Inr r' \<Longrightarrow> stock r' = stock r"
  "set_priceFromJson j r = Inr r' \<Longrightarrow> stock r' = stock r"
  by (auto simp: set_name_def set_description_def set_productId_def set_imageUrl_def
      set_priceFromJson_def and_then_Inr Let_def split: if_splits jsval.splits list.splits)

lemma get_prop_total: "get_prop j k = Inr x \<Longrightarrow> \<exists>y. get_prop j k' = Inr y"
  by (cases j) simp_all

lemma get_prop_error: "get_prop j k = Inl e \<Longrightarrow> e = TypeError"
  by (cases j) simp_all

lemma set_imageUrl_error: "set_imageUrl j r = Inl e \<Longrightarrow> e = TypeError"
  by (auto simp: set_imageUrl_def and_then_def Let_def dest: get_prop_error
      split: sum.splits if_splits jsval.splits list.splits)

lemma readers_total:
  assumes "get_prop j k = Inr x"
  shows "\<exists>r'. set_name j r = Inr r'" "\<exists>r'. set_description j r = Inr r'"
    "\<exists>r'. set_productId j r = Inr r'"
  using get_prop_total[OF assms, of "''name''"] get_prop_total[OF assms, of "''description''"]
    get_prop_total[OF assms, of "''sku''"]
  by (auto simp: set_name_def set_description_def set_productId_def and_then_def)

lemma set_stock_string:
  assumes "get_prop j ''offers'' = Inr offers" and "truthy offers"
    and "get_prop offers ''availability'' = Inr (JStr a)" and "stock r = ustr ''0''"
  shows "\<exists>r'. set_stock j r = Inr r' \<and>
           stock r' = (if str_includes a (ustr ''InStock'')
                          \<or> str_includes a (ustr ''LimitedAvailability'')
                       then ustr ''1'' else ustr ''0'')"
proof (cases "a = []")
  case True
  have "\<not> str_includes [] (ustr ''InStock'')" "\<not> str_includes [] (ustr ''LimitedAvailability'')"
    by (simp_all add: ustr_def)
  with True assms show ?thesis by (simp add: set_stock_def and_then_def)
next
  case False
  with assms show ?thesis by (simp add: set_stock_def and_then_def)
qed

lemma stock_follows_availability:
  assumes block: "parsed_block parse pg = Some j"
    and image: "\<And>r. set_imageUrl j r \<noteq> Inl TypeError"
    and offers: "get_prop j ''offers'' = Inr offers" "truthy offers"
    and avail: "get_prop offers ''availability'' = Inr (JStr a)"
  shows "stock (getJsonLdData parse pg) =
           (if str_includes a (ustr ''InStock'') \<or> str_includes a (ustr ''LimitedAvailability'')
            then ustr ''1'' else ustr ''0'')"
proof -
  from readers_total(1)[OF offers(1)] obtain r1 where 1: "set_name j jsonld_init = Inr r1" by blast
  from readers_total(2)[OF offers(1)] obtain r2 where 2: "set_description j r1 = Inr r2" by blast
  from readers_total(3)[OF offers(1)] obtain r3 where 3: "set_productId j r2 = Inr r3" by blast
  obtain r4 where 4: "set_imageUrl j r3 = Inr r4"
  proof (cases "set_imageUrl j r3")
    case (Inl e)
    with image[of r3] set_imageUrl_error[of j r3 e] show ?thesis by simp
  next
    case (Inr r)
    then show ?thesis by (rule that)
  qed
  have "stock r4 = stock jsonld_init"
    using others_keep_stock(1)[OF 1] others_keep_stock(2)[OF 2] others_keep_stock(3)[OF 3]
      others_keep_stock(4)[OF 4] by simp
  then have "stock r4 = ustr ''0''" by (simp add: jsonld_init_def)
  from set_stock_string[OF offers avail this] obtain r5 where
    5: "set_stock j r4 = Inr r5"
    and v: "stock r5 = (if str_includes a (ustr ''InStock'')
                          \<or> str_includes a (ustr ''LimitedAvailability'')
                       then ustr ''1'' else ustr ''0'')"
    by blast
  have "stock (run_statements [set_priceFromJson j] r5) = stock r5"
    by (rule run_statements_preserves) (auto dest: others_keep_stock(5))
  moreover have "getJsonLdData parse pg = run_statements [set_priceFromJson j] r5"
    by (simp add: getJsonLdData_block block 1 2 3 4 5)
  ultimately show ?thesis using v by simp
qed

lemma stock_default:
  "parsed_block parse pg = None \<Longrightarrow> stock (getJsonLdData parse pg) = ustr ''0''"
  by (simp add: getJsonLdData_block jsonld_init_def)

lemma stock_without_availability:
  assumes block: "parsed_block parse pg = Some j"
    and none: "get_prop j ''offers'' = Inr offers"
      "\<not> truthy offers \<or> (\<exists>v. get_prop offers ''availability'' = Inr v \<and> \<not> truthy v)"
  shows "stock (getJsonLdData parse pg) = ustr ''0''"
proof -
  have keep: "set_stock j r = Inr r" for r
    using none by (auto simp: set_stock_def and_then_def)
  have "stock (run_statements
            [set_name j, set_description j, set_productId j,
             set_imageUrl j, set_stock j, set_priceFromJson j] jsonld_init) = stock jsonld_init"
    by (rule run_statements_preserves) (auto dest: others_keep_stock simp: keep)
  then show ?thesis by (simp add: getJsonLdData_block block jsonld_init_def)
qed

section \<open>Facts about the guard, the loops and the session\<close>

lemma poll_time_lower: "2000 * k \<le> poll_time v k"
  by (induction k) simp_all

lemma captcha_loop_polls:
  assumes "\<forall>j. k \<le> j \<and> poll_time v (j - 1) < 60000 \<longrightarrow> captcha v j"
    and "waited = poll_time v (k - 1)" and "1 \<le> k"
  shows "captcha_loop v k waited = Inl CaptchaTimeout"
  using assms
proof (induction v k waited rule: captcha_loop.induct)
  case (1 v k waited)
  show ?case
  proof (cases "waited < 60000")
    case False
    then show ?thesis by simp
  next
    case True
    with "1.prems" have c: "captcha v k" by simp
    from "1.prems" obtain k' where k: "k = Suc k'" by (cases k) auto
    have "captcha_loop v (Suc k) (waited + 2000 + lag v k) = Inl CaptchaTimeout"
      using True c "1.prems" by (intro "1.IH") (auto simp: k)
    with True c show ?thesis by simp
  qed
qed

lemma handleCaptcha_polls:
  "\<forall>k. 1 \<le> k \<and> poll_time v (k - 1) < 60000 \<longrightarrow> captcha v k
   \<Longrightarrow> handleCaptcha v = Inl CaptchaTimeout"
  unfolding handleCaptcha_def by (rule captcha_loop_polls) simp_all

lemma polls_within_30:
  assumes "\<forall>k. 1 \<le> k \<and> k \<le> 30 \<longrightarrow> captcha v k"
  shows "\<forall>k. 1 \<le> k \<and> poll_time v (k - 1) < 60000 \<longrightarrow> captcha v k"
proof (intro allI impI)
  fix k assume h: "1 \<le> k \<and> poll_time v (k - 1) < 60000"
  have "2000 * (k - 1) \<le> poll_time v (k - 1)" by (rule poll_time_lower)
  with h have "k \<le> 30" by arith
  with h assms show "captcha v k" by simp
qed

lemma handleCaptcha_timeout:
  "\<forall>k. 1 \<le> k \<and> k \<le> 30 \<longrightarrow> captcha v k \<Longrightarrow> handleCaptcha v = Inl CaptchaTimeout"
  by (rule handleCaptcha_polls) (rule polls_within_30)

lemma checkCaptcha_clear: "\<not> captcha v 0 \<Longrightarrow> checkCaptcha v = Inr 1"
  by (simp add: checkCaptcha_def)

lemma checkCaptcha_timeout:
  "\<forall>k \<le> 30. captcha v k \<Longrightarrow> checkCaptcha v = Inl CaptchaTimeout"
  by (simp add: checkCaptcha_def handleCaptcha_timeout)

lemma crawlProduct_captcha_timeout:
  assumes "\<forall>k \<le> 30. captcha v k"
  shows "crawlProduct parse v url = None"
    and "goto_ok v \<and> ready_ok v \<longrightarrow> crawlProduct_try parse v url = Inl CaptchaTimeout"
  using checkCaptcha_timeout[OF assms]
  by (simp_all add: crawlProduct_def crawlProduct_try_def and_then_def)

lemma crawlProduct_captcha_polls:
  assumes "captcha v 0" and "\<forall>k. 1 \<le> k \<and> poll_time v (k - 1) < 60000 \<longrightarrow> captcha v k"
  shows "checkCaptcha v = Inl CaptchaTimeout"
    and "crawlProduct parse v url = None"
    and "goto_ok v \<and> ready_ok v \<longrightarrow> crawlProduct_try parse v url = Inl CaptchaTimeout"
proof -
  show c: "checkCaptcha v = Inl CaptchaTimeout"
    using assms by (simp add: checkCaptcha_def handleCaptcha_polls)
  then show "crawlProduct parse v url = None"
    and "goto_ok v \<and> ready_ok v \<longrightarrow> crawlProduct_try parse v url = Inl CaptchaTimeout"
    by (simp_all add: crawlProduct_def crawlProduct_try_def and_then_def)
qed

lemma crawlProduct_navigation_failure: "\<not> goto_ok v \<Longrightarrow> crawlProduct parse v url = None"
  by (simp add: crawlProduct_def crawlProduct_try_def)

lemma crawlProduct_no_root:
  "content v = Some pg \<Longrightarrow> sel_length pg ''#root'' = 0 \<Longrightarrow> crawlProduct parse v url = None"
  by (simp add: crawlProduct_def crawlProduct_try_def and_then_def split: sum.splits)

lemma crawl_urls_step_failure:
  "crawlProduct parse (browser i) url = None \<Longrightarrow>
   crawl_urls_loop parse browser i (url # rest) c =
     crawl_urls_loop parse browser (Suc i) rest (c\<lparr>failedUrls := failedUrls c @ [url]\<rparr>)"
  by simp

lemma crawl_urls_loop_failed:
  "failedUrls (crawl_urls_loop parse browser i urls c) =
     failedUrls c @
     map snd (filter (\<lambda>(j, u). crawlProduct parse (browser j) u = None) (enumerate i urls))"
  by (induction urls arbitrary: i c) (auto split: option.splits)

lemma crawl_urls_loop_results:
  "results (crawl_urls_loop parse browser i urls c) =
     results c @
     map (\<lambda>(j, u). the (crawlProduct parse (browser j) u))
       (filter (\<lambda>(j, u). crawlProduct parse (browser j) u \<noteq> None) (enumerate i urls))"
  by (induction urls arbitrary: i c) (auto split: option.splits)







lemma run_session_reached:
  assumes "launch_ok s" "newPage_ok s" "setViewport_ok s" "setHeaders_ok s"
  shows "batch (run_session s loop c) = loop c"
  using assms by (simp add: run_session_def split: sum.splits)

lemma run_session_saved:
  assumes "launch_ok s" "newPage_ok s" "setViewport_ok s" "setHeaders_ok s" "page_close_ok s"
  shows "save_called (run_session s loop c)"
    and "write_ok s \<longrightarrow>
           map_option products (written (run_session s loop c)) = Some (results (loop c))
         \<and> map_option failed (written (run_session s loop c)) = Some (failedUrls (loop c))
         \<and> map_option successfulUrls (written (run_session s loop c)) = Some (length (results (loop c)))
         \<and> map_option failedCount (written (run_session s loop c)) = Some (length (failedUrls (loop c)))"
  using assms by (simp_all add: run_session_def saveResults_def)

lemma run_session_not_saved:
  "\<not> save_called (run_session s loop c) \<Longrightarrow>
     \<not> launch_ok s \<or> \<not> newPage_ok s \<or> \<not> setViewport_ok s \<or> \<not> setHeaders_ok s \<or> \<not> page_close_ok s"
  by (auto simp: run_session_def split: sum.splits if_splits)

lemma run_session_rejected:
  "rejected (run_session s loop c) \<longleftrightarrow> \<not> launch_ok s \<or> \<not> browser_close_ok s"
  by (auto simp: run_session_def split: sum.splits if_splits)

lemma title_page_crawl:
  "crawlProduct sample_parse (sample_visit title_page) url
     = Some (build_product sample_parse (sample_visit title_page) title_page url)"
proof -
  have "getTitle title_page = ustr ''Foo Product Title''"
    by (simp add: title_page_def getTitle_def title_selectors_def sample_page_def trim_def
        ustr_def is_space_def)
  then have "finalTitle sample_parse title_page = JStr (ustr ''Foo Product Title'')"
    by (simp add: finalTitle_def js_or_def ustr_def)
  moreover have "sel_length title_page ''#root'' \<noteq> 0"
    by (simp add: title_page_def sample_page_def)
  ultimately show ?thesis by (rule crawl_sample_visit)
qed

lemma sample_browser_crawl:
  "crawlProduct sample_parse (sample_browser i) url =
     (if i = 1 then None
      else Some (build_product sample_parse (sample_visit title_page) title_page url))"
proof -
  have "\<not> goto_ok (offline_visit title_page)" by (simp add: offline_visit_def)
  then have "crawlProduct sample_parse (offline_visit title_page) url = None"
    by (rule crawlProduct_navigation_failure)
  then show ?thesis by (simp add: sample_browser_def title_page_crawl)
qed

section \<open>Facts about link discovery\<close>

lemma collect_listing:
  \<open>collect (hrefs listing_page ''a[href*="/products/"]'') ([], {})
     = ([link_a, link_b, link_c, link_d], {link_a, link_b, link_c, link_d})\<close>
  by (simp add: listing_page_def fullUrl_of_def cleanUrl_of_def startsWith_def ustr_def
      link_a_def link_b_def link_c_def link_d_def Let_def insert_commute)

lemma links_listing:
  "links_loop listing_page cap link_selectors ([], {}) = [link_a, link_b, link_c, link_d]"
proof -
  have other: \<open>hrefs listing_page ''.Bm3ON'' = []\<close>
    \<open>hrefs listing_page ''[data-tracking="product-card"]'' = []\<close>
    \<open>hrefs listing_page ''.qmXQo'' = []\<close>
    by (simp_all add: listing_page_def)
  show ?thesis
    by (simp add: link_selectors_def collect_listing other Let_def)
qed

lemma discover_listing:
  "discover listing_page 2 = [link_a, link_b]"
  "discover listing_page (- 1) = [link_a, link_b, link_c]"
  by (simp_all add: discover_def links_listing slice0_def)


lemma cleanUrl_no_query: "0x3F \<notin> set (cleanUrl_of u)"
  by (auto simp: cleanUrl_of_def dest: set_takeWhileD)

lemma cleanUrl_fixed: "0x3F \<notin> set l \<Longrightarrow> cleanUrl_of l = l"
  by (auto simp: cleanUrl_of_def)

lemma collect_invariant:
  assumes "distinct (fst st)" and "set (fst st) \<subseteq> snd st" and "\<forall>l \<in> set (fst st). 0x3F \<notin> set l"
  shows "distinct (fst (collect hs st)) \<and> set (fst (collect hs st)) \<subseteq> snd (collect hs st)
         \<and> (\<forall>l \<in> set (fst (collect hs st)). 0x3F \<notin> set l)"
  using assms
proof (induction hs st rule: collect.induct)
  case (1 st)
  then show ?case by simp
next
  case (2 h hs links seen)
  show ?case
  proof (cases h)
    case None
    with 2 show ?thesis by simp
  next
    case (Some href)
    let ?clean = "cleanUrl_of (fullUrl_of href)"
    show ?thesis
    proof (cases "href \<noteq> [] \<and> str_includes href (ustr ''/products/'') \<and> href \<notin> seen
                  \<and> ?clean \<notin> seen \<and> str_includes ?clean (ustr ''/products/'')")
      case True
      have "distinct (fst (links @ [?clean], insert ?clean seen))"
           "set (fst (links @ [?clean], insert ?clean seen)) \<subseteq> snd (links @ [?clean], insert ?clean seen)"
           "\<forall>l \<in> set (fst (links @ [?clean], insert ?clean seen)). 0x3F \<notin> set l"
        using "2.prems" True cleanUrl_no_query by auto
      then have "distinct (fst (collect hs (links @ [?clean], insert ?clean seen)))
         \<and> set (fst (collect hs (links @ [?clean], insert ?clean seen)))
             \<subseteq> snd (collect hs (links @ [?clean], insert ?clean seen))
         \<and> (\<forall>l \<in> set (fst (collect hs (links @ [?clean], insert ?clean seen))). 0x3F \<notin> set l)"
        using True Some by (intro "2.IH"(2)) auto
      moreover have "collect (h # hs) (links, seen) = collect hs (links @ [?clean], insert ?clean seen)"
        using True Some by (simp add: Let_def)
      ultimately show ?thesis by simp
    next
      case False
      then have e: "collect (h # hs) (links, seen) = collect hs (links, seen)"
        using Some by (auto simp: Let_def)
      have "distinct (fst (collect hs (links, seen)))
         \<and> set (fst (collect hs (links, seen))) \<subseteq> snd (collect hs (links, seen))
         \<and> (\<forall>l \<in> set (fst (collect hs (links, seen))). 0x3F \<notin> set l)"
      proof (cases "href \<noteq> [] \<and> str_includes href (ustr ''/products/'') \<and> href \<notin> seen")
        case True
        with False have "\<not> (?clean \<notin> seen \<and> str_includes ?clean (ustr ''/products/''))" by blast
        with True Some "2.prems" show ?thesis by (intro "2.IH"(3)) auto
      next
        case False
        with Some "2.prems" show ?thesis by (intro "2.IH"(4)) auto
      qed
      with e show ?thesis by simp
    qed
  qed
qed

lemma links_loop_invariant:
  assumes "distinct (fst st)" and "set (fst st) \<subseteq> snd st" and "\<forall>l \<in> set (fst st). 0x3F \<notin> set l"
  shows "distinct (links_loop pg cap sels st) \<and> (\<forall>l \<in> set (links_loop pg cap sels st). 0x3F \<notin> set l)"
  using assms
proof (induction sels arbitrary: st)
  case Nil
  then show ?case by simp
next
  case (Cons sel sels)
  let ?st = "collect (hrefs pg sel) st"
  from collect_invariant[OF Cons.prems, of "hrefs pg sel"]
  have inv: "distinct (fst ?st)" "set (fst ?st) \<subseteq> snd ?st" "\<forall>l \<in> set (fst ?st). 0x3F \<notin> set l"
    by blast+
  show ?case
  proof (cases "cap \<le> int (length (fst ?st))")
    case True
    with inv show ?thesis by (simp add: Let_def)
  next
    case False
    with Cons.IH[OF inv] show ?thesis by (simp add: Let_def)
  qed
qed

lemma slice0_facts:
  "distinct xs \<Longrightarrow> distinct (slice0 xs n)"
  "set (slice0 xs n) \<subseteq> set xs"
  "0 \<le> n \<Longrightarrow> int (length (slice0 xs n)) \<le> n"
  "0 \<le> n \<Longrightarrow> n \<le> int (length xs) \<Longrightarrow> int (length (slice0 xs n)) = n"
  by (auto simp: slice0_def dest: in_set_takeD)

lemma discover_facts:
  "distinct (discover pg cap)"
  "\<forall>l \<in> set (discover pg cap). 0x3F \<notin> set l"
  "distinct (map cleanUrl_of (discover pg cap))"
proof -
  let ?links = "links_loop pg cap link_selectors ([], {})"
  have inv: "distinct ?links" "\<forall>l \<in> set ?links. 0x3F \<notin> set l"
    using links_loop_invariant[of "([], {})" pg cap link_selectors] by simp_all
  show d: "distinct (discover pg cap)"
    unfolding discover_def using inv(1) by (rule slice0_facts(1))
  show q: "\<forall>l \<in> set (discover pg cap). 0x3F \<notin> set l"
    unfolding discover_def using inv(2) slice0_facts(2)[of ?links cap] by blast
  have "map cleanUrl_of (discover pg cap) = discover pg cap"
    using q by (simp add: map_idI cleanUrl_fixed)
  with d show "distinct (map cleanUrl_of (discover pg cap))" by simp
qed

lemma getProductLinks_cases:
  "getProductLinks v categoryUrl cap = [] \<or>
   (\<exists>pg. content v = Some pg \<and> getProductLinks v categoryUrl cap = discover pg cap)"
  by (auto simp: getProductLinks_def getProductLinks_try_def and_then_def
      split: sum.splits option.splits if_splits)


lemma poll_time_constant: "\<forall>j. lag v j = c \<Longrightarrow> poll_time v k = k * (2000 + c)"
  by (induction k) simp_all

lemma slow_visit_times:
  "poll_time (slow_visit pg) 20 = 59980" "poll_time (slow_visit pg) 21 = 62979"
proof -
  have "\<forall>j. lag (slow_visit pg) j = 999" by (simp add: slow_visit_def)
  then have "poll_time (slow_visit pg) k = k * (2000 + 999)" for k
    by (rule poll_time_constant)
  then show "poll_time (slow_visit pg) 20 = 59980" "poll_time (slow_visit pg) 21 = 62979"
    by simp_all
qed

lemma slow_visit_handled: "handleCaptcha (slow_visit pg) = Inr 22"
  by (simp add: handleCaptcha_def slow_visit_def sample_visit_def)

section \<open>Claims\<close>




text \<open>
  C8. An href that starts with \<open>http\<close> and holds no question mark is returned unchanged
  by the rewriting to an absolute URL followed by the removal of the query.
\<close>

theorem canonical_url_fixed_point:
  assumes "startsWith href (ustr ''http'')" and "0x3F \<notin> set href"
  shows "cleanUrl_of (fullUrl_of href) = href"
proof -
  from assms(1) obtain r where h: "href = ustr ''http'' @ r"
    by (auto simp: startsWith_iff)
  have a: "\<not> startsWith href (ustr ''//'')" "\<not> startsWith href (ustr ''/'')"
    by (simp_all add: h startsWith_def ustr_def)
  have "fullUrl_of href = href"
    using assms(1) a by (simp add: fullUrl_of_def)
  moreover have "takeWhile (\<lambda>c. c \<noteq> 0x3F) href = href"
    using assms(2) by auto
  ultimately show ?thesis by (simp add: cleanUrl_of_def)
qed

theorem canonical_url_fixed_point_witness:
  "startsWith sample_url (ustr ''http'') \<and> 0x3F \<notin> set sample_url
   \<and> cleanUrl_of (fullUrl_of sample_url) = sample_url"
proof -
  have a: "startsWith sample_url (ustr ''http'')"
    by (simp add: sample_url_def startsWith_def ustr_def)
  have b: "0x3F \<notin> set sample_url"
    by (simp add: sample_url_def ustr_def)
  show ?thesis using a b canonical_url_fixed_point[OF a b] by simp
qed

text \<open>
  C4. The final title is the first of the trimmed texts of the dedicated title selector, the
  generic heading and the badge-title selector, in this order, that is not empty and longer
  than 10 code units; when none qualifies it is the name that the structured-data block
  supplies (a truthy \<open>name\<close> property of the parsed block), and the empty string when the
  block is missing, empty or unparseable or supplies no name. It is the title of the record
  that \<open>crawlProduct\<close> returns.
\<close>

theorem final_title_precedence:
  "finalTitle parse pg =
     (case find (\<lambda>t. t \<noteq> [] \<and> 10 < length t)
             (map (\<lambda>sel. trim (first_text pg sel))
                [''.pdp-product-title'', ''h1'', ''.pdp-mod-product-badge-title'']) of
        Some t \<Rightarrow> JStr t
      | None \<Rightarrow>
          (case parsed_block parse pg of
             None \<Rightarrow> JStr []
           | Some jsonData \<Rightarrow>
               (case get_prop jsonData ''name'' of
                  Inl e \<Rightarrow> JStr []
                | Inr v \<Rightarrow> if truthy v then v else JStr [])))
   \<and> (crawlProduct parse v url = Some p \<and> content v = Some pg
        \<longrightarrow> pdp_title_value p = finalTitle parse pg)"
proof -
  let ?f = "find (\<lambda>t. t \<noteq> [] \<and> 10 < length t)
             (map (\<lambda>sel. trim (first_text pg sel))
                [''.pdp-product-title'', ''h1'', ''.pdp-mod-product-badge-title''])"
  have t: "getTitle pg = (case ?f of Some t \<Rightarrow> t | None \<Rightarrow> [])"
    unfolding getTitle_def title_selectors_def by (rule getTitle_loop_find)
  have n: "name (getJsonLdData parse pg) =
          (case parsed_block parse pg of
             None \<Rightarrow> JStr []
           | Some jsonData \<Rightarrow>
               (case get_prop jsonData ''name'' of
                  Inl e \<Rightarrow> JStr []
                | Inr v \<Rightarrow> if truthy v then v else JStr []))"
  proof (cases "parsed_block parse pg")
    case None
    then show ?thesis by (simp add: getJsonLdData_block jsonld_init_def)
  next
    case (Some j)
    then show ?thesis by (simp only: getJsonLdData_block option.case name_of_statements)
  qed
  have first: "finalTitle parse pg = (case ?f of Some t \<Rightarrow> JStr t | None \<Rightarrow> name (getJsonLdData parse pg))"
  proof (cases ?f)
    case None
    then show ?thesis by (simp add: finalTitle_def js_or_def t)
  next
    case (Some u)
    then have "(\<lambda>t. t \<noteq> [] \<and> 10 < length t) u" by (rule find_SomeD)
    then have "u \<noteq> []" by simp
    with Some show ?thesis by (simp add: finalTitle_def js_or_def t)
  qed
  have second: "crawlProduct parse v url = Some p \<and> content v = Some pg
        \<longrightarrow> pdp_title_value p = finalTitle parse pg"
    by (auto dest!: crawlProduct_Some simp: build_product_fields)
  show ?thesis using first second by (simp only: n)
qed

theorem final_title_precedence_witness:
  "finalTitle sample_parse (sample_page [] [] (Some script_a)) = JStr (ustr ''Foo Product'')
   \<and> map_option pdp_title_value
        (crawlProduct sample_parse (sample_visit (sample_page [] [] (Some script_a))) sample_url)
      = Some (JStr (ustr ''Foo Product''))"
proof -
  let ?pg = "sample_page [] [] (Some script_a)"
  let ?p = "build_product sample_parse (sample_visit ?pg) ?pg sample_url"
  have none: "find (\<lambda>t. t \<noteq> [] \<and> 10 < length t)
             (map (\<lambda>sel. trim (first_text ?pg sel))
                [''.pdp-product-title'', ''h1'', ''.pdp-mod-product-badge-title'']) = None"
    by (simp add: sample_page_def trim_def)
  have nm: "get_prop json_a ''name'' = Inr (JStr (ustr ''Foo Product''))"
    by (simp add: json_a_def ustr_def)
  note inst = final_title_precedence[of sample_parse ?pg "sample_visit ?pg" sample_url ?p]
  have title: "finalTitle sample_parse ?pg = JStr (ustr ''Foo Product'')"
    using inst[THEN conjunct1] unfolding none script_a_block by (simp add: nm ustr_def)
  have root: "sel_length ?pg ''#root'' \<noteq> 0" by (simp add: sample_page_def)
  have crawl: "crawlProduct sample_parse (sample_visit ?pg) sample_url = Some ?p"
    using title root by (rule crawl_sample_visit)
  have "content (sample_visit ?pg) = Some ?pg" by (simp add: sample_visit_def)
  with inst crawl have "pdp_title_value ?p = finalTitle sample_parse ?pg" by blast
  with title crawl show ?thesis by simp
qed

text \<open>
  C9. In every record that \<open>crawlProduct\<close> returns, the image count is \<open>1\<close> exactly when
  the image URL is not empty, and \<open>0\<close> exactly when it is empty.
\<close>

theorem image_count_matches_url:
  assumes "crawlProduct parse v url = Some p"
  shows "(pdp_image_count p = ustr ''1'' \<longleftrightarrow> pdp_image_url p \<noteq> [])
       \<and> (pdp_image_count p = ustr ''0'' \<longleftrightarrow> pdp_image_url p = [])"
proof -
  from crawlProduct_Some[OF assms] obtain pg where p: "p = build_product parse v pg url"
    by blast
  have "ustr ''1'' \<noteq> ustr ''0''" by (simp add: ustr_def)
  then show ?thesis by (auto simp: p build_product_fields)
qed

theorem image_count_matches_url_witness:
  "map_option pdp_image_count
      (crawlProduct sample_parse (sample_visit (sample_page [] [] (Some script_a))) sample_url)
     = Some (ustr ''1'')
   \<and> map_option pdp_image_url
      (crawlProduct sample_parse (sample_visit (sample_page [] [] (Some script_a))) sample_url)
     = Some (ustr ''https://i.co/p.jpg'')"
proof -
  let ?pg = "sample_page [] [] (Some script_a)"
  let ?p = "build_product sample_parse (sample_visit ?pg) ?pg sample_url"
  have "getTitle ?pg = []"
    by (simp add: getTitle_def title_selectors_def sample_page_def trim_def)
  then have title: "finalTitle sample_parse ?pg = JStr (ustr ''Foo Product'')"
    by (simp add: finalTitle_def js_or_def jsonld_a ustr_def)
  have root: "sel_length ?pg ''#root'' \<noteq> 0" by (simp add: sample_page_def)
  have crawl: "crawlProduct sample_parse (sample_visit ?pg) sample_url = Some ?p"
    using title root by (rule crawl_sample_visit)
  have url: "pdp_image_url ?p = ustr ''https://i.co/p.jpg''"
    by (simp add: build_product_fields jsonld_a)
  then have "pdp_image_url ?p \<noteq> []" by (simp add: ustr_def)
  with image_count_matches_url[OF crawl] have "pdp_image_count ?p = ustr ''1''" by blast
  with url crawl show ?thesis by simp
qed

text \<open>
  C10. The sale price of a returned record is what \<open>getPrices\<close> found in the page, never
  a value of the structured data: when the page gives no sale price the field is empty,
  while an empty regular price is replaced by the structured-data price.
\<close>

theorem sale_price_without_fallback:
  assumes "crawlProduct parse v url = Some p" and "content v = Some pg"
  shows "price_sp p = salePrice (getPrices pg)
       \<and> (salePrice (getPrices pg) = [] \<longrightarrow> price_sp p = [])
       \<and> (regularPrice (getPrices pg) = []
            \<longrightarrow> price_rp p = priceFromJson (getJsonLdData parse pg))
       \<and> (regularPrice (getPrices pg) \<noteq> [] \<longrightarrow> price_rp p = regularPrice (getPrices pg))"
proof -
  from crawlProduct_Some[OF assms(1)] assms(2) have p: "p = build_product parse v pg url"
    by auto
  show ?thesis by (simp add: p build_product_fields finalRegularPrice_def)
qed

theorem sale_price_without_fallback_witness:
  "map_option price_sp
      (crawlProduct sample_parse (sample_visit (sample_page [] [] (Some script_a))) sample_url)
     = Some []
   \<and> map_option price_rp
      (crawlProduct sample_parse (sample_visit (sample_page [] [] (Some script_a))) sample_url)
     = Some (ustr ''271043'')
   \<and> priceFromJson (getJsonLdData sample_parse (sample_page [] [] (Some script_a)))
     = ustr ''271043''"
proof -
  let ?pg = "sample_page [] [] (Some script_a)"
  let ?p = "build_product sample_parse (sample_visit ?pg) ?pg sample_url"
  have "getTitle ?pg = []"
    by (simp add: getTitle_def title_selectors_def sample_page_def trim_def)
  then have title: "finalTitle sample_parse ?pg = JStr (ustr ''Foo Product'')"
    by (simp add: finalTitle_def js_or_def jsonld_a ustr_def)
  have root: "sel_length ?pg ''#root'' \<noteq> 0" by (simp add: sample_page_def)
  have crawl: "crawlProduct sample_parse (sample_visit ?pg) sample_url = Some ?p"
    using title root by (rule crawl_sample_visit)
  have c: "content (sample_visit ?pg) = Some ?pg" by (simp add: sample_visit_def)
  have pr: "salePrice (getPrices ?pg) = []" "regularPrice (getPrices ?pg) = []"
    by (simp_all add: getPrices_def sample_page_def)
  have j: "priceFromJson (getJsonLdData sample_parse ?pg) = ustr ''271043''"
    by (simp add: jsonld_a)
  from sale_price_without_fallback[OF crawl c] pr j
  have "price_sp ?p = []" "price_rp ?p = ustr ''271043''" by simp_all
  with crawl j show ?thesis by simp
qed

text \<open>
  C7. The in-stock field is meant to be \<open>1\<close> exactly when the availability value contains
  \<open>InStock\<close> or \<open>LimitedAvailability\<close>. On a block whose \<open>image\<close> is an array of
  objects the image statement throws before the availability is read, and the field keeps
  its default \<open>0\<close> although the availability is \<open>https://schema.org/InStock\<close>.
\<close>

theorem stock_lost_after_image_error:
  "parsed_block sample_parse (sample_page (ustr ''Foo Product Title'') price_text (Some script_b))
     = Some json_b
   \<and> and_then (get_prop json_b ''offers'') (\<lambda>offers. get_prop offers ''availability'')
     = Inr (JStr (ustr ''https://schema.org/InStock''))
   \<and> str_includes (ustr ''https://schema.org/InStock'') (ustr ''InStock'')
   \<and> set_imageUrl json_b jsonld_init = Inl TypeError
   \<and> stock (getJsonLdData sample_parse
        (sample_page (ustr ''Foo Product Title'') price_text (Some script_b))) = ustr ''0''
   \<and> map_option vosa
        (crawlProduct sample_parse
           (sample_visit (sample_page (ustr ''Foo Product Title'') price_text (Some script_b)))
           sample_url)
     = Some (ustr ''0'')"
proof -
  let ?pg = "sample_page (ustr ''Foo Product Title'') price_text (Some script_b)"
  let ?p = "build_product sample_parse (sample_visit ?pg) ?pg sample_url"
  have a: "and_then (get_prop json_b ''offers'') (\<lambda>offers. get_prop offers ''availability'')
     = Inr (JStr (ustr ''https://schema.org/InStock''))"
    by (simp add: json_b_def and_then_def ustr_def)
  have b: "str_includes (ustr ''https://schema.org/InStock'') (ustr ''InStock'')"
    by (simp add: ustr_def startsWith_def)
  have c: "set_imageUrl json_b jsonld_init = Inl TypeError"
    by (simp add: json_b_def set_imageUrl_def and_then_def ustr_def)
  have d: "stock (getJsonLdData sample_parse ?pg) = ustr ''0''"
    by (simp add: jsonld_b jsonld_init_def)
  have "getTitle ?pg = ustr ''Foo Product Title''"
    by (simp add: getTitle_def title_selectors_def sample_page_def trim_def ustr_def
        is_space_def)
  then have title: "finalTitle sample_parse ?pg = JStr (ustr ''Foo Product Title'')"
    by (simp add: finalTitle_def js_or_def ustr_def)
  have root: "sel_length ?pg ''#root'' \<noteq> 0" by (simp add: sample_page_def)
  have crawl: "crawlProduct sample_parse (sample_visit ?pg) sample_url = Some ?p"
    using title root by (rule crawl_sample_visit)
  have "vosa ?p = ustr ''0''" by (simp add: build_product_fields d)
  with crawl have e: "map_option vosa (crawlProduct sample_parse (sample_visit ?pg) sample_url)
     = Some (ustr ''0'')" by simp
  show ?thesis using script_b_block a b c d e by blast
qed

text \<open>
  C3. When the first \<open>detectCaptcha\<close> call returns false, the check returns after that
  one call, without a poll. The loop tests the deadline before each delay, so a poll is
  made whenever the test before it is reached with less than 60000 ms passed, and the last
  poll can fall up to one round after the deadline. When every poll that the loop makes
  returns true, \<open>handleCaptcha\<close> throws the timeout; \<open>crawlProduct\<close> then returns
  \<open>null\<close>, and the loop of the session records the URL as failed and goes on with the next
  target.
\<close>

theorem captcha_guard:
  "(\<not> captcha v 0 \<longrightarrow> checkCaptcha v = Inr 1)
   \<and> ((\<forall>k. 1 \<le> k \<and> poll_time v (k - 1) < 60000 \<longrightarrow> captcha v k)
        \<longrightarrow> handleCaptcha v = Inl CaptchaTimeout)
   \<and> (captcha v 0 \<and> (\<forall>k. 1 \<le> k \<and> poll_time v (k - 1) < 60000 \<longrightarrow> captcha v k)
        \<longrightarrow> checkCaptcha v = Inl CaptchaTimeout
          \<and> crawlProduct parse v url = None
          \<and> (goto_ok v \<and> ready_ok v \<longrightarrow> crawlProduct_try parse v url = Inl CaptchaTimeout))
   \<and> (captcha (browser i) 0
        \<and> (\<forall>k. 1 \<le> k \<and> poll_time (browser i) (k - 1) < 60000 \<longrightarrow> captcha (browser i) k)
        \<longrightarrow> crawl_urls_loop parse browser i (url # rest) c =
            crawl_urls_loop parse browser (Suc i) rest (c\<lparr>failedUrls := failedUrls c @ [url]\<rparr>))"
proof -
  have 1: "\<not> captcha v 0 \<longrightarrow> checkCaptcha v = Inr 1"
    by (simp add: checkCaptcha_clear)
  have 2: "(\<forall>k. 1 \<le> k \<and> poll_time v (k - 1) < 60000 \<longrightarrow> captcha v k)
        \<longrightarrow> handleCaptcha v = Inl CaptchaTimeout"
    using handleCaptcha_polls[of v] by blast
  have 3: "captcha v 0 \<and> (\<forall>k. 1 \<le> k \<and> poll_time v (k - 1) < 60000 \<longrightarrow> captcha v k)
        \<longrightarrow> checkCaptcha v = Inl CaptchaTimeout
          \<and> crawlProduct parse v url = None
          \<and> (goto_ok v \<and> ready_ok v \<longrightarrow> crawlProduct_try parse v url = Inl CaptchaTimeout)"
    using crawlProduct_captcha_polls(1)[of v] crawlProduct_captcha_polls(2,3)[of v parse url]
    by blast
  have 4: "captcha (browser i) 0
        \<and> (\<forall>k. 1 \<le> k \<and> poll_time (browser i) (k - 1) < 60000 \<longrightarrow> captcha (browser i) k)
        \<longrightarrow> crawl_urls_loop parse browser i (url # rest) c =
            crawl_urls_loop parse browser (Suc i) rest (c\<lparr>failedUrls := failedUrls c @ [url]\<rparr>)"
    using crawlProduct_captcha_polls(2)[of "browser i" parse url]
      crawl_urls_step_failure[of parse browser i url rest c]
    by blast
  from 1 2 3 4 show ?thesis by (intro conjI)
qed

theorem captcha_guard_witness:
  "checkCaptcha (sample_visit title_page) = Inr 1
   \<and> handleCaptcha (stuck_visit title_page) = Inl CaptchaTimeout
   \<and> crawlProduct_try sample_parse (stuck_visit title_page) link_a = Inl CaptchaTimeout
   \<and> crawlProduct sample_parse (stuck_visit title_page) link_a = None
   \<and> crawl_urls_loop sample_parse (\<lambda>i. if i = 0 then stuck_visit title_page else sample_visit title_page)
        0 [link_a, link_b] new_crawler
      = \<lparr>results = [build_product sample_parse (sample_visit title_page) title_page link_b],
         failedUrls = [link_a]\<rparr>"
proof -
  let ?b = "\<lambda>i::nat. if i = 0 then stuck_visit title_page else sample_visit title_page"
  have clear: "\<not> captcha (sample_visit title_page) 0" by (simp add: sample_visit_def)
  have stuck: "captcha (stuck_visit title_page) 0"
    "\<forall>k. 1 \<le> k \<and> poll_time (stuck_visit title_page) (k - 1) < 60000
         \<longrightarrow> captcha (stuck_visit title_page) k"
    "goto_ok (stuck_visit title_page)" "ready_ok (stuck_visit title_page)"
    by (simp_all add: stuck_visit_def sample_visit_def)
  have stuck0: "captcha (?b 0) 0"
    "\<forall>k. 1 \<le> k \<and> poll_time (?b 0) (k - 1) < 60000 \<longrightarrow> captcha (?b 0) k"
    using stuck by simp_all
  note a = captcha_guard[of "sample_visit title_page" sample_parse link_a ?b 0 "[]" new_crawler]
  note b = captcha_guard[of "stuck_visit title_page" sample_parse link_a ?b 0 "[link_b]" new_crawler]
  from a clear have 1: "checkCaptcha (sample_visit title_page) = Inr 1" by blast
  from b stuck have 2: "handleCaptcha (stuck_visit title_page) = Inl CaptchaTimeout"
    and 3: "crawlProduct_try sample_parse (stuck_visit title_page) link_a = Inl CaptchaTimeout"
    and 4: "crawlProduct sample_parse (stuck_visit title_page) link_a = None"
    by blast+
  from b stuck0 have "crawl_urls_loop sample_parse ?b 0 [link_a, link_b] new_crawler
      = crawl_urls_loop sample_parse ?b (Suc 0) [link_b]
          (new_crawler\<lparr>failedUrls := failedUrls new_crawler @ [link_a]\<rparr>)"
    by blast
  then have 5: "crawl_urls_loop sample_parse ?b 0 [link_a, link_b] new_crawler
      = \<lparr>results = [build_product sample_parse (sample_visit title_page) title_page link_b],
         failedUrls = [link_a]\<rparr>"
    by (simp add: title_page_crawl new_crawler_def)
  from 1 2 3 4 5 show ?thesis by blast
qed

text \<open>
  A CAPTCHA that is present for 62.9 seconds, longer than the deadline, and polled every
  2999 ms: poll 20 at 59980 ms finds it, the loop test passes once more, and poll 21 at
  62979 ms finds it gone, so \<open>handleCaptcha\<close> returns instead of throwing and the
  product is crawled.
\<close>

theorem captcha_guard_counterexample:
  "captcha (slow_visit title_page) = (\<lambda>k. 2999 * k < 62900)
   \<and> captcha (slow_visit title_page) 0
   \<and> poll_time (slow_visit title_page) 20 = 59980
   \<and> captcha (slow_visit title_page) 20
   \<and> poll_time (slow_visit title_page) 21 = 62979
   \<and> \<not> captcha (slow_visit title_page) 21
   \<and> handleCaptcha (slow_visit title_page) = Inr 22
   \<and> checkCaptcha (slow_visit title_page) = Inr 22
   \<and> crawlProduct_try sample_parse (slow_visit title_page) link_a \<noteq> Inl CaptchaTimeout
   \<and> crawlProduct sample_parse (slow_visit title_page) link_a
       = Some (build_product sample_parse (slow_visit title_page) title_page link_a)"
proof -
  let ?v = "slow_visit title_page"
  have 1: "captcha ?v = (\<lambda>k. 2999 * k < 62900)" by (simp add: slow_visit_def)
  have 2: "captcha ?v 0" "captcha ?v 20" "\<not> captcha ?v 21" by (simp_all add: 1)
  note 3 = slow_visit_times[of title_page]
  note 4 = slow_visit_handled[of title_page]
  have 5: "checkCaptcha ?v = Inr 22" using 2(1) 4 by (simp add: checkCaptcha_def)
  have "getTitle title_page = ustr ''Foo Product Title''"
    by (simp add: title_page_def getTitle_def title_selectors_def sample_page_def trim_def
        ustr_def is_space_def)
  then have title: "finalTitle sample_parse title_page = JStr (ustr ''Foo Product Title'')"
    by (simp add: finalTitle_def js_or_def ustr_def)
  have root: "sel_length title_page ''#root'' \<noteq> 0"
    by (simp add: title_page_def sample_page_def)
  have flags: "goto_ok ?v" "ready_ok ?v" "reready_ok ?v" "scroll_ok ?v"
    "content ?v = Some title_page"
    by (simp_all add: slow_visit_def sample_visit_def)
  have 6: "crawlProduct_try sample_parse ?v link_a
            = Inr (build_product sample_parse ?v title_page link_a)"
    using title root by (simp add: crawlProduct_try_def 5 flags and_then_def)
  then have 7: "crawlProduct sample_parse ?v link_a
            = Some (build_product sample_parse ?v title_page link_a)"
    by (simp add: crawlProduct_def)
  from 6 have 8: "crawlProduct_try sample_parse ?v link_a \<noteq> Inl CaptchaTimeout" by simp
  from 1 2 3 4 5 8 7 show ?thesis by (intro conjI)
qed

text \<open>
  C6. A navigation failure, a CAPTCHA timeout and a missing root element each make
  \<open>crawlProduct\<close> return \<open>null\<close>, and the failure list of the loop is the old list
  followed by exactly the URLs whose visit returned \<open>null\<close>, in order. When the session's
  own calls succeed up to \<open>page.close()\<close>, \<open>saveResults\<close> is called on the lists the
  loop produced, also when every target failed, and the written document holds them;
  \<open>saveResults\<close> is skipped only when one of the session's own calls failed, and the run
  rejects only when launching or closing the browser fails.
\<close>

theorem per_target_errors_become_failures:
  "(\<not> goto_ok v \<longrightarrow> crawlProduct parse v url = None)
   \<and> ((\<forall>k \<le> 30. captcha v k) \<longrightarrow> crawlProduct parse v url = None)
   \<and> (content v = Some pg \<and> sel_length pg ''#root'' = 0 \<longrightarrow> crawlProduct parse v url = None)
   \<and> failedUrls (crawl_urls_loop parse browser i urls c) =
       failedUrls c @
       map snd (filter (\<lambda>(j, u). crawlProduct parse (browser j) u = None) (enumerate i urls))
   \<and> (launch_ok s \<and> newPage_ok s \<and> setViewport_ok s \<and> setHeaders_ok s \<and> page_close_ok s
        \<longrightarrow> save_called (crawlByUrls parse s browser urls c)
          \<and> batch (crawlByUrls parse s browser urls c) = crawl_urls_loop parse browser 0 urls c
          \<and> save_called (crawlByCategories parse s world cats c)
          \<and> batch (crawlByCategories parse s world cats c) = categories_loop parse world 0 cats c
          \<and> (write_ok s \<longrightarrow>
                map_option failed (written (crawlByUrls parse s browser urls c))
                  = Some (failedUrls (crawl_urls_loop parse browser 0 urls c))
              \<and> map_option products (written (crawlByUrls parse s browser urls c))
                  = Some (results (crawl_urls_loop parse browser 0 urls c))))
   \<and> (launch_ok s \<and> newPage_ok s \<and> setViewport_ok s \<and> setHeaders_ok s \<and> page_close_ok s
        \<and> (\<forall>(j, u) \<in> set (enumerate 0 urls). crawlProduct parse (browser j) u = None)
        \<longrightarrow> save_called (crawlByUrls parse s browser urls c)
          \<and> results (batch (crawlByUrls parse s browser urls c)) = results c
          \<and> failedUrls (batch (crawlByUrls parse s browser urls c)) = failedUrls c @ urls)
   \<and> (\<not> save_called (crawlByUrls parse s browser urls c)
        \<longrightarrow> \<not> launch_ok s \<or> \<not> newPage_ok s \<or> \<not> setViewport_ok s \<or> \<not> setHeaders_ok s
            \<or> \<not> page_close_ok s)
   \<and> (\<not> save_called (crawlByCategories parse s world cats c)
        \<longrightarrow> \<not> launch_ok s \<or> \<not> newPage_ok s \<or> \<not> setViewport_ok s \<or> \<not> setHeaders_ok s
            \<or> \<not> page_close_ok s)
   \<and> (rejected (crawlByUrls parse s browser urls c) \<longleftrightarrow> \<not> launch_ok s \<or> \<not> browser_close_ok s)"
proof -
  let ?loop = "crawl_urls_loop parse browser 0 urls"
  let ?cloop = "categories_loop parse world 0 cats"
  have 1: "\<not> goto_ok v \<longrightarrow> crawlProduct parse v url = None"
    by (simp add: crawlProduct_navigation_failure)
  have 2: "(\<forall>k \<le> 30. captcha v k) \<longrightarrow> crawlProduct parse v url = None"
    using crawlProduct_captcha_timeout(1) by blast
  have 3: "content v = Some pg \<and> sel_length pg ''#root'' = 0 \<longrightarrow> crawlProduct parse v url = None"
    using crawlProduct_no_root by blast
  note 4 = crawl_urls_loop_failed[of parse browser i urls c]
  have 5: "launch_ok s \<and> newPage_ok s \<and> setViewport_ok s \<and> setHeaders_ok s \<and> page_close_ok s
        \<longrightarrow> save_called (crawlByUrls parse s browser urls c)
          \<and> batch (crawlByUrls parse s browser urls c) = ?loop c
          \<and> save_called (crawlByCategories parse s world cats c)
          \<and> batch (crawlByCategories parse s world cats c) = ?cloop c
          \<and> (write_ok s \<longrightarrow>
                map_option failed (written (crawlByUrls parse s browser urls c))
                  = Some (failedUrls (?loop c))
              \<and> map_option products (written (crawlByUrls parse s browser urls c))
                  = Some (results (?loop c)))"
    unfolding crawlByUrls_def crawlByCategories_def
    using run_session_saved[of s ?loop c] run_session_reached[of s ?loop c]
      run_session_saved(1)[of s ?cloop c] run_session_reached[of s ?cloop c]
    by blast
  have all: "filter (\<lambda>(j, u). crawlProduct parse (browser j) u = None) (enumerate 0 urls)
               = enumerate 0 urls"
       "filter (\<lambda>(j, u). crawlProduct parse (browser j) u \<noteq> None) (enumerate 0 urls) = []"
    if "\<forall>(j, u) \<in> set (enumerate 0 urls). crawlProduct parse (browser j) u = None"
    using that by (auto simp: filter_id_conv filter_empty_conv)
  have 6: "launch_ok s \<and> newPage_ok s \<and> setViewport_ok s \<and> setHeaders_ok s \<and> page_close_ok s
        \<and> (\<forall>(j, u) \<in> set (enumerate 0 urls). crawlProduct parse (browser j) u = None)
        \<longrightarrow> save_called (crawlByUrls parse s browser urls c)
          \<and> results (batch (crawlByUrls parse s browser urls c)) = results c
          \<and> failedUrls (batch (crawlByUrls parse s browser urls c)) = failedUrls c @ urls"
  proof (intro impI, elim conjE)
    assume ok: "launch_ok s" "newPage_ok s" "setViewport_ok s" "setHeaders_ok s" "page_close_ok s"
      and none: "\<forall>(j, u) \<in> set (enumerate 0 urls). crawlProduct parse (browser j) u = None"
    have "results (?loop c) = results c"
      unfolding crawl_urls_loop_results all(2)[OF none] by simp
    moreover have "failedUrls (?loop c) = failedUrls c @ urls"
      unfolding crawl_urls_loop_failed all(1)[OF none] by simp
    ultimately show "save_called (crawlByUrls parse s browser urls c)
          \<and> results (batch (crawlByUrls parse s browser urls c)) = results c
          \<and> failedUrls (batch (crawlByUrls parse s browser urls c)) = failedUrls c @ urls"
      using 5 ok by simp
  qed
  have 7: "\<not> save_called (crawlByUrls parse s browser urls c)
        \<longrightarrow> \<not> launch_ok s \<or> \<not> newPage_ok s \<or> \<not> setViewport_ok s \<or> \<not> setHeaders_ok s
            \<or> \<not> page_close_ok s"
    unfolding crawlByUrls_def using run_session_not_saved[of s ?loop c] by blast
  have 8: "\<not> save_called (crawlByCategories parse s world cats c)
        \<longrightarrow> \<not> launch_ok s \<or> \<not> newPage_ok s \<or> \<not> setViewport_ok s \<or> \<not> setHeaders_ok s
            \<or> \<not> page_close_ok s"
    unfolding crawlByCategories_def using run_session_not_saved[of s ?cloop c] by blast
  have 9: "rejected (crawlByUrls parse s browser urls c) \<longleftrightarrow> \<not> launch_ok s \<or> \<not> browser_close_ok s"
    unfolding crawlByUrls_def by (rule run_session_rejected)
  from 1 2 3 4 5 6 7 8 9 show ?thesis by (intro conjI)
qed

theorem per_target_errors_become_failures_witness:
  "crawlProduct sample_parse (offline_visit title_page) link_b = None
   \<and> crawlProduct sample_parse (stuck_visit title_page) link_a = None
   \<and> crawlProduct sample_parse (sample_visit listing_page) link_a = None
   \<and> save_called (crawlByUrls sample_parse sample_session sample_browser
         [link_a, link_b, link_c] new_crawler)
   \<and> map_option failed (written (crawlByUrls sample_parse sample_session sample_browser
         [link_a, link_b, link_c] new_crawler)) = Some [link_b]
   \<and> save_called (crawlByUrls sample_parse sample_session (\<lambda>i. offline_visit title_page)
         [link_a, link_b, link_c] new_crawler)
   \<and> failedUrls (batch (crawlByUrls sample_parse sample_session (\<lambda>i. offline_visit title_page)
         [link_a, link_b, link_c] new_crawler)) = [link_a, link_b, link_c]
   \<and> results (batch (crawlByUrls sample_parse sample_session (\<lambda>i. offline_visit title_page)
         [link_a, link_b, link_c] new_crawler)) = []"
proof -
  let ?urls = "[link_a, link_b, link_c]"
  let ?off = "\<lambda>i::nat. offline_visit title_page"
  have off: "\<not> goto_ok (offline_visit title_page)" by (simp add: offline_visit_def)
  have stuck: "\<forall>k \<le> 30. captcha (stuck_visit title_page) k"
    by (simp add: stuck_visit_def)
  have noroot: "content (sample_visit listing_page) = Some listing_page
      \<and> sel_length listing_page ''#root'' = 0"
    by (simp add: sample_visit_def listing_page_def)
  have sess: "launch_ok sample_session \<and> newPage_ok sample_session
      \<and> setViewport_ok sample_session \<and> setHeaders_ok sample_session
      \<and> page_close_ok sample_session" "write_ok sample_session"
    by (simp_all add: sample_session_def)
  note a = per_target_errors_become_failures[of "offline_visit title_page" sample_parse link_b
      listing_page sample_browser 0 ?urls new_crawler sample_session "\<lambda>i. sample_world i" "[]"]
  note b = per_target_errors_become_failures[of "stuck_visit title_page" sample_parse link_a
      listing_page ?off 0 ?urls new_crawler sample_session "\<lambda>i. sample_world i" "[]"]
  note c = per_target_errors_become_failures[of "sample_visit listing_page" sample_parse link_a
      listing_page ?off 0 ?urls new_crawler sample_session "\<lambda>i. sample_world i" "[]"]
  from a off have 1: "crawlProduct sample_parse (offline_visit title_page) link_b = None"
    by blast
  from b stuck have 2: "crawlProduct sample_parse (stuck_visit title_page) link_a = None"
    by blast
  from c noroot have 3: "crawlProduct sample_parse (sample_visit listing_page) link_a = None"
    by blast
  from a sess have 4: "save_called (crawlByUrls sample_parse sample_session sample_browser
         ?urls new_crawler)"
    and w: "map_option failed (written (crawlByUrls sample_parse sample_session sample_browser
         ?urls new_crawler)) = Some (failedUrls (crawl_urls_loop sample_parse sample_browser 0 ?urls new_crawler))"
    by blast+
  from a have f: "failedUrls (crawl_urls_loop sample_parse sample_browser 0 ?urls new_crawler) =
       failedUrls new_crawler @
       map snd (filter (\<lambda>(j, u). crawlProduct sample_parse (sample_browser j) u = None)
         (enumerate 0 ?urls))"
    by blast
  have "failedUrls (crawl_urls_loop sample_parse sample_browser 0 ?urls new_crawler) = [link_b]"
    unfolding f by (simp add: sample_browser_crawl new_crawler_def)
  with w have 5: "map_option failed (written (crawlByUrls sample_parse sample_session
      sample_browser ?urls new_crawler)) = Some [link_b]"
    by simp
  have "\<forall>(j, u) \<in> set (enumerate 0 ?urls). crawlProduct sample_parse (?off j) u = None"
    using off by (simp add: crawlProduct_navigation_failure)
  with b sess have 6: "save_called (crawlByUrls sample_parse sample_session ?off ?urls new_crawler)"
    and r: "results (batch (crawlByUrls sample_parse sample_session ?off ?urls new_crawler))
              = results new_crawler"
    and g: "failedUrls (batch (crawlByUrls sample_parse sample_session ?off ?urls new_crawler))
              = failedUrls new_crawler @ ?urls"
    by blast+
  from r g have 7: "failedUrls (batch (crawlByUrls sample_parse sample_session ?off ?urls new_crawler))
              = ?urls"
    and 8: "results (batch (crawlByUrls sample_parse sample_session ?off ?urls new_crawler)) = []"
    by (simp_all add: new_crawler_def)
  from 1 2 3 4 5 6 7 8 show ?thesis by (intro conjI)
qed



text \<open>
  C2. For every page and every cap, a count and so not negative, link discovery returns a
  sequence without repetition, also after the removal of the query from each element, and
  of length at most the cap; when the selectors yield at least cap links the result has
  exactly cap elements; and once the links collected after a selector number at least cap,
  the remaining selectors are not consulted. The same bounds hold for \<open>getProductLinks\<close>,
  which returns the discovered links or the empty array.
\<close>

theorem discover_distinct_and_capped:
  assumes "0 \<le> cap"
  shows "distinct (discover pg cap)
       \<and> distinct (map cleanUrl_of (discover pg cap))
       \<and> int (length (discover pg cap)) \<le> cap
       \<and> (cap \<le> int (length (links_loop pg cap link_selectors ([], {})))
            \<longrightarrow> int (length (discover pg cap)) = cap)
       \<and> (cap \<le> int (length (fst (collect (hrefs pg selector) st)))
            \<longrightarrow> links_loop pg cap (selector # rest) st = fst (collect (hrefs pg selector) st))
       \<and> distinct (map cleanUrl_of (getProductLinks v categoryUrl cap))
       \<and> int (length (getProductLinks v categoryUrl cap)) \<le> cap"
proof -
  have 3: "int (length (discover pg cap)) \<le> cap" for pg
    unfolding discover_def using assms by (rule slice0_facts(3))
  have 4: "cap \<le> int (length (links_loop pg cap link_selectors ([], {})))
            \<longrightarrow> int (length (discover pg cap)) = cap"
    unfolding discover_def using assms slice0_facts(4) by blast
  have 5: "cap \<le> int (length (fst (collect (hrefs pg selector) st)))
            \<longrightarrow> links_loop pg cap (selector # rest) st = fst (collect (hrefs pg selector) st)"
    by (simp add: Let_def)
  have 6: "distinct (map cleanUrl_of (getProductLinks v categoryUrl cap))"
    using getProductLinks_cases[of v categoryUrl cap] discover_facts(3) by auto
  have 7: "int (length (getProductLinks v categoryUrl cap)) \<le> cap"
    using getProductLinks_cases[of v categoryUrl cap] 3 assms by auto
  from discover_facts(1)[of pg cap] discover_facts(3)[of pg cap] 3[of pg] 4 5 6 7
  show ?thesis by (intro conjI)
qed

theorem discover_distinct_and_capped_witness:
  "(0::int) \<le> 2 \<and> discover listing_page 2 = [link_a, link_b]
   \<and> distinct (map cleanUrl_of (discover listing_page 2))
   \<and> int (length (discover listing_page 2)) = 2
   \<and> int (length (getProductLinks (sample_visit listing_page) (category_url sample_category) 2)) \<le> 2"
proof -
  have h: "(0::int) \<le> 2" by simp
  note t = discover_distinct_and_capped[OF h, of listing_page _ _ _ "sample_visit listing_page"
      "category_url sample_category"]
  have "(2::int) \<le> int (length (links_loop listing_page 2 link_selectors ([], {})))"
    by (simp add: links_listing)
  with t have "int (length (discover listing_page 2)) = 2" by blast
  moreover from t have "distinct (map cleanUrl_of (discover listing_page 2))"
    and "int (length (getProductLinks (sample_visit listing_page) (category_url sample_category) 2)) \<le> 2"
    by blast+
  ultimately show ?thesis using discover_listing(1) by simp
qed

end
